theory Spec2Isabelle
  imports Complex_Main
begin

section \<open>Tabular Q-learning with the Safety Bellman Equation\<close>

text \<open>
  A shallow embedding of \<^verbatim>\<open>src/tabular_q_learning/q_learning.py\<close>: the functions
  \<^verbatim>\<open>learn\<close> and \<^verbatim>\<open>select_action\<close>.

  Conventions of the model.
  \<^item> NumPy's \<^verbatim>\<open>float64\<close> values are modelled as \<open>real\<close>: rounding, infinities and NaN
    are outside the model.
  \<^item> A NumPy array is a shape together with a map from multi-indices to entries.
    An index that is out of range raises \<^verbatim>\<open>IndexError\<close>. The state index of the
    source comes from \<^verbatim>\<open>discretize_state\<close>, which yields one non-negative bin number
    per state axis; an index of any other length is reported as \<^verbatim>\<open>IndexError\<close> as well
    (NumPy would address a sub-array for a shorter one).
  \<^item> The global NumPy generator and the environment object are mutable; they form the
    \<open>world\<close> that every effectful function takes and returns.
  \<^item> The clock (\<^verbatim>\<open>time.process_time\<close>, \<^verbatim>\<open>datetime.now\<close>) is an input of the run.
  \<^item> The environment, the generator and the helpers imported from \<^verbatim>\<open>utils\<close>
    (\<^verbatim>\<open>discretize_state\<close>, \<^verbatim>\<open>discrete_to_real\<close>, \<^verbatim>\<open>sbe_outcome\<close>) are parameters.
  \<^item> Console output, warnings and the persistence call \<^verbatim>\<open>save\<close> write to the outside
    only; nothing the run reads depends on them, and they are left out.
\<close>

subsection \<open>Errors\<close>

datatype error = ValueError string | IndexError | AttributeError

subsection \<open>Arrays\<close>

record ndarray =
  shape :: "nat list"
  cells :: "nat list \<Rightarrow> real"

definition valid_index :: "nat list \<Rightarrow> nat list \<Rightarrow> bool" where
  "valid_index shp idx = list_all2 (<) idx shp"

definition np_zeros :: "nat list \<Rightarrow> ndarray" where
  "np_zeros shp = \<lparr>shape = shp, cells = (\<lambda>idx. 0)\<rparr>"

text \<open>\<^verbatim>\<open>a[idx]\<close> for a full multi-index.\<close>

definition getitem :: "ndarray \<Rightarrow> nat list \<Rightarrow> error + real" where
  "getitem a idx = (if valid_index (shape a) idx then Inr (cells a idx) else Inl IndexError)"

text \<open>\<^verbatim>\<open>a[idx] = v\<close> for a full multi-index.\<close>

definition setitem :: "ndarray \<Rightarrow> nat list \<Rightarrow> real \<Rightarrow> error + ndarray" where
  "setitem a idx v =
     (if valid_index (shape a) idx then Inr (a\<lparr>cells := (cells a)(idx := v)\<rparr>)
      else Inl IndexError)"

text \<open>\<^verbatim>\<open>a[idx] += 1\<close>.\<close>

definition inc_item :: "ndarray \<Rightarrow> nat list \<Rightarrow> error + ndarray" where
  "inc_item a idx =
     (case getitem a idx of
        Inl e \<Rightarrow> Inl e
      | Inr v \<Rightarrow> setitem a idx (v + 1))"

text \<open>\<^verbatim>\<open>q_values[state]\<close>: the row of action values at a state index.\<close>

definition getrow :: "ndarray \<Rightarrow> nat list \<Rightarrow> error + real list" where
  "getrow a st =
     (if shape a \<noteq> [] \<and> valid_index (butlast (shape a)) st
      then Inr (map (\<lambda>k. cells a (st @ [k])) [0..<last (shape a)])
      else Inl IndexError)"

text \<open>\<^verbatim>\<open>np.amax\<close> of a row; an empty row raises.\<close>

definition np_amax :: "real list \<Rightarrow> error + real" where
  "np_amax xs =
     (case xs of
        [] \<Rightarrow> Inl (ValueError ''zero-size array to reduction operation maximum which has no identity'')
      | x # rest \<Rightarrow> Inr (fold max rest x))"

text \<open>
  \<^verbatim>\<open>np.argmax\<close> of a row: a left-to-right scan that replaces the best position only
  at a strictly larger entry.
\<close>

fun argmax_scan :: "real list \<Rightarrow> nat \<Rightarrow> nat \<Rightarrow> real \<Rightarrow> nat" where
  "argmax_scan [] i best bv = best"
| "argmax_scan (x # xs) i best bv =
     (if bv < x then argmax_scan xs (Suc i) i x else argmax_scan xs (Suc i) best bv)"

definition np_argmax :: "real list \<Rightarrow> error + nat" where
  "np_argmax xs =
     (case xs of
        [] \<Rightarrow> Inl (ValueError ''attempt to get argmax of an empty sequence'')
      | x # rest \<Rightarrow> Inr (argmax_scan rest 1 0 x))"

subsection \<open>The world and the external collaborators\<close>

record ('g, 'e) world =
  rng :: 'g
  env :: 'e

record ('g, 'e, 'o, 'b) externals =
  np_random_seed :: "int \<Rightarrow> 'g"
  np_random_random :: "'g \<Rightarrow> real \<times> 'g"
  env_reset :: "'e \<Rightarrow> 'o \<times> 'e"
  env_step :: "nat \<Rightarrow> 'e \<Rightarrow> ('o \<times> real \<times> bool) \<times> 'e"
  action_space_sample :: "('g, 'e) world \<Rightarrow> nat \<times> ('g, 'e) world"
  action_space_n :: "'e \<Rightarrow> nat"
  l_function :: "'e \<Rightarrow> 'o \<Rightarrow> real"
  set_discretization :: "nat list \<Rightarrow> (real \<times> real) list \<Rightarrow> 'e \<Rightarrow> 'e"
  env_bins :: "'e \<Rightarrow> 'b"
  env_spec_id :: "'e \<Rightarrow> string"
  discrete_to_real :: "nat list \<Rightarrow> (real \<times> real) list \<Rightarrow> nat list \<Rightarrow> 'o"
  discretize_state :: "nat list \<Rightarrow> (real \<times> real) list \<Rightarrow> 'b \<Rightarrow> 'o \<Rightarrow> nat list"
  sbe_outcome :: "real list \<Rightarrow> real \<Rightarrow> real"

subsection \<open>Action selection\<close>

text \<open>
  What a caller binds to the parameter \<^verbatim>\<open>env\<close> of \<^verbatim>\<open>select_action\<close>: the environment
  object, or a number. A number has no attribute \<^verbatim>\<open>action_space\<close>.
\<close>

datatype py_arg = EnvObject | PyFloat real

definition select_action ::
  "('g, 'e, 'o, 'b) externals \<Rightarrow> ndarray \<Rightarrow> nat list \<Rightarrow> py_arg \<Rightarrow> real \<Rightarrow>
     ('g, 'e) world \<Rightarrow> (error + nat) \<times> ('g, 'e) world" where
  "select_action X q state env_arg eps w =
     (let (u, g') = np_random_random X (rng w);
          w1 = w\<lparr>rng := g'\<rparr>
      in if u < eps then
           (case env_arg of
              EnvObject \<Rightarrow> (let (a, w2) = action_space_sample X w1 in (Inr a, w2))
            | PyFloat x \<Rightarrow> (Inl AttributeError, w1))
         else
           (case getrow q state of
              Inl e \<Rightarrow> (Inl e, w1)
            | Inr row \<Rightarrow>
                (case np_argmax row of
                   Inl e \<Rightarrow> (Inl e, w1)
                 | Inr a \<Rightarrow> (Inr a, w1))))"

subsection \<open>Arguments of \<^verbatim>\<open>learn\<close>, the clock, the statistics\<close>

text \<open>
  The schedule functions take the episode number and a visit count. The parameters
  \<^verbatim>\<open>suppress_print\<close> and \<^verbatim>\<open>save_freq\<close> only steer console output and persistence.
\<close>

record learn_args =
  get_learning_rate :: "int \<Rightarrow> real \<Rightarrow> real"
  get_epsilon :: "int \<Rightarrow> real \<Rightarrow> real"
  get_gamma :: "int \<Rightarrow> real \<Rightarrow> real"
  max_episodes :: nat
  buckets :: "nat list"
  state_bounds :: "(real \<times> real) list"
  max_episode_length :: "nat option"
  q_values_arg :: "ndarray option"
  start_episode :: "int option"
  seed :: int
  fictitious_terminal_val :: "real option"
  use_sbe :: bool

text \<open>
  The three clock readings of a run: \<^verbatim>\<open>time.process_time()\<close> on entry,
  \<^verbatim>\<open>datetime.now().strftime(...)\<close> when the statistics are set up, and
  \<^verbatim>\<open>time.process_time()\<close> after the last episode.
\<close>

record clock =
  process_time_start :: real
  now_strftime :: string
  process_time_end :: real

text \<open>
  The dictionary \<^verbatim>\<open>stats\<close>. The key \<^verbatim>\<open>time_elapsed\<close> is absent until the run is over.
\<close>

record stats =
  start_time :: string
  episode_lengths :: "real list"
  average_episode_rewards :: "real list"
  true_min :: "real list"
  episode_outcomes :: "real list"
  state_action_visits :: ndarray
  stats_epsilon :: "real list"
  stats_learning_rate :: "real list"
  stats_state_bounds :: "(real \<times> real) list"
  stats_buckets :: "nat list"
  stats_gamma :: "real list"
  stats_type :: string
  stats_environment :: string
  stats_seed :: int
  stats_episode :: nat
  time_elapsed :: "real option"

subsection \<open>Setting up the value table (lines 67-88)\<close>

text \<open>
  A fresh table is filled through \<^verbatim>\<open>np.nditer\<close>, which refuses an array without entries
  (an axis of length \<open>0\<close>).
\<close>

definition setup_q_values ::
  "('g, 'e, 'o, 'b) externals \<Rightarrow> learn_args \<Rightarrow> 'e \<Rightarrow> error + ndarray" where
  "setup_q_values X A e =
     (case q_values_arg A of
        None \<Rightarrow>
          (if start_episode A \<noteq> None
           then Inl (ValueError ''start_episode is only to be used with a warmstart q_values'')
           else
             (let shp = buckets A @ [action_space_n X e]
              in if 0 \<in> set shp
                 then Inl (ValueError ''Iteration of zero-sized operands is not enabled'')
                 else Inr \<lparr>shape = shp,
                      cells = (\<lambda>idx. if valid_index shp idx
                                 then l_function X e
                                        (discrete_to_real X (buckets A) (state_bounds A) (butlast idx))
                                 else 0)\<rparr>))
      | Some q \<Rightarrow>
          (if butlast (shape q) \<noteq> buckets A
           then Inl (ValueError ''The shape of q_values excluding the last dimension must be the same as the shape of the discretization of states.'')
           else Inr q))"

definition init_stats ::
  "('g, 'e, 'o, 'b) externals \<Rightarrow> learn_args \<Rightarrow> clock \<Rightarrow> ndarray \<Rightarrow> 'e \<Rightarrow> stats" where
  "init_stats X A clk q e =
     \<lparr>start_time = now_strftime clk,
      episode_lengths = replicate (max_episodes A) 0,
      average_episode_rewards = replicate (max_episodes A) 0,
      true_min = replicate (max_episodes A) 0,
      episode_outcomes = replicate (max_episodes A) 0,
      state_action_visits = np_zeros (shape q),
      stats_epsilon = replicate (max_episodes A) 0,
      stats_learning_rate = replicate (max_episodes A) 0,
      stats_state_bounds = state_bounds A,
      stats_buckets = buckets A,
      stats_gamma = replicate (max_episodes A) 0,
      stats_type = ''tabular q_values-learning'',
      stats_environment = env_spec_id X e,
      stats_seed = seed A,
      stats_episode = 0,
      time_elapsed = None\<rparr>"

subsection \<open>The backup (lines 149-165)\<close>

text \<open>Python's truth value of \<^verbatim>\<open>fictitious_terminal_val\<close>.\<close>

definition truthy :: "real option \<Rightarrow> bool" where
  "truthy v = (case v of None \<Rightarrow> False | Some x \<Rightarrow> x \<noteq> 0)"

definition q_terminal :: "bool \<Rightarrow> real option \<Rightarrow> real \<Rightarrow> real \<Rightarrow> real" where
  "q_terminal sbe ftv gam reward =
     (if sbe then
        (if truthy ftv then (1 - gam) * reward + gam * min reward (the ftv) else reward)
      else
        (if truthy ftv then reward + gam * the ftv else reward))"

definition q_non_terminal :: "bool \<Rightarrow> real \<Rightarrow> real \<Rightarrow> real \<Rightarrow> real" where
  "q_non_terminal sbe gam reward next_max =
     (if sbe then (1 - gam) * reward + gam * min reward next_max
      else reward + gam * next_max)"

definition new_q :: "bool \<Rightarrow> real \<Rightarrow> real \<Rightarrow> real" where
  "new_q dn qt qn = of_bool dn * qt + (1 - of_bool dn) * qn"

subsection \<open>One pass through the body of the step loop (lines 130-167)\<close>

text \<open>
  The variables of \<^verbatim>\<open>learn\<close> that the loops change. Before the first episode the
  episode-local ones (\<open>state\<close>, \<open>done_flag\<close>, \<open>t_count\<close>, \<open>episode_rewards\<close>) are unbound
  in the source; the model starts them at \<open>[]\<close>, \<open>False\<close>, \<open>0\<close>, \<open>[]\<close>, and
  every episode rebinds them before reading them.
\<close>

record ('g, 'e) loop_state =
  world_of :: "('g, 'e) world"
  q_values :: ndarray
  stats_of :: stats
  state :: "nat list"
  done_flag :: bool
  t_count :: nat
  episode_rewards :: "real list"
  epsilon :: real
  alpha :: real
  gamma :: real

text \<open>
  An error carries the world at the moment it is raised. The call of
  \<^verbatim>\<open>select_action\<close> is the one of line 131: three positional arguments, so that the
  current \<^verbatim>\<open>epsilon\<close> is bound to the parameter \<^verbatim>\<open>env\<close> and the parameter
  \<^verbatim>\<open>epsilon\<close> keeps its default \<open>0\<close>.
\<close>

definition loop_body ::
  "('g, 'e, 'o, 'b) externals \<Rightarrow> learn_args \<Rightarrow> int \<Rightarrow> nat \<Rightarrow> ('g, 'e) loop_state \<Rightarrow>
     (error \<times> ('g, 'e) world) + ('g, 'e) loop_state" where
  "loop_body X A start_ep episode s =
     (case select_action X (q_values s) (state s) (PyFloat (epsilon s)) 0 (world_of s) of
        (Inl e, w1) \<Rightarrow> Inl (e, w1)
      | (Inr action, w1) \<Rightarrow>
          (let ((obs, reward, dn), e2) = env_step X action (env w1);
               w2 = w1\<lparr>env := e2\<rparr>;
               next_state = discretize_state X (buckets A) (state_bounds A) (env_bins X e2) obs
           in case inc_item (state_action_visits (stats_of s)) (state s @ [action]) of
                Inl e \<Rightarrow> Inl (e, w2)
              | Inr visits \<Rightarrow>
                  (let num_visits = cells visits (state s @ [action]);
                       eps' = get_epsilon A (int episode + start_ep) num_visits;
                       alpha' = get_learning_rate A (int episode + start_ep) num_visits;
                       gamma' = get_gamma A (int episode + start_ep) num_visits
                   in case getrow (q_values s) next_state of
                        Inl e \<Rightarrow> Inl (e, w2)
                      | Inr row \<Rightarrow>
                          (case np_amax row of
                             Inl e \<Rightarrow> Inl (e, w2)
                           | Inr next_max \<Rightarrow>
                               (let target = new_q dn
                                      (q_terminal (use_sbe A) (fictitious_terminal_val A) gamma' reward)
                                      (q_non_terminal (use_sbe A) gamma' reward next_max)
                                in case getitem (q_values s) (state s @ [action]) of
                                     Inl e \<Rightarrow> Inl (e, w2)
                                   | Inr old \<Rightarrow>
                                       (case setitem (q_values s) (state s @ [action])
                                               ((1 - alpha') * old + alpha' * target) of
                                          Inl e \<Rightarrow> Inl (e, w2)
                                        | Inr q' \<Rightarrow>
                                            Inr (s\<lparr>world_of := w2,
                                                   q_values := q',
                                                   stats_of := (stats_of s)\<lparr>state_action_visits := visits\<rparr>,
                                                   state := next_state,
                                                   done_flag := dn,
                                                   t_count := Suc (t_count s),
                                                   episode_rewards := episode_rewards s @ [reward],
                                                   epsilon := eps',
                                                   alpha := alpha',
                                                   gamma := gamma'\<rparr>)))))))"

subsection \<open>The step loop of one episode (lines 129-171)\<close>

text \<open>
  Without \<^verbatim>\<open>max_episode_length\<close> the loop runs until the environment reports
  \<^verbatim>\<open>done\<close>, which may be never: \<open>None\<close> is the run that does not return.
\<close>

definition length_reached :: "nat option \<Rightarrow> nat \<Rightarrow> bool" where
  "length_reached mel n = (case mel of None \<Rightarrow> False | Some m \<Rightarrow> m \<le> n)"

partial_function (option) step_loop ::
  "('g, 'e, 'o, 'b) externals \<Rightarrow> learn_args \<Rightarrow> int \<Rightarrow> nat \<Rightarrow> ('g, 'e) loop_state \<Rightarrow>
     ((error \<times> ('g, 'e) world) + ('g, 'e) loop_state) option" where
  "step_loop X A start_ep episode s =
     (if done_flag s then Some (Inr s)
      else
        (case loop_body X A start_ep episode s of
           Inl err \<Rightarrow> Some (Inl err)
         | Inr s' \<Rightarrow>
             (if length_reached (max_episode_length A) (t_count s') then Some (Inr s')
              else step_loop X A start_ep episode s')))"

subsection \<open>One episode (lines 124-183)\<close>

definition begin_episode ::
  "('g, 'e, 'o, 'b) externals \<Rightarrow> learn_args \<Rightarrow> ('g, 'e) loop_state \<Rightarrow> ('g, 'e) loop_state" where
  "begin_episode X A s =
     (let (obs, e1) = env_reset X (env (world_of s))
      in s\<lparr>world_of := (world_of s)\<lparr>env := e1\<rparr>,
           state := discretize_state X (buckets A) (state_bounds A) (env_bins X e1) obs,
           done_flag := False,
           t_count := 0,
           episode_rewards := []\<rparr>)"

text \<open>
  The per-episode arrays have length \<^verbatim>\<open>max_episodes\<close> and the episode number is
  below it, so the writes are in range. \<^verbatim>\<open>np.min\<close> raises on an empty array.
\<close>

definition end_episode ::
  "('g, 'e, 'o, 'b) externals \<Rightarrow> nat \<Rightarrow> ('g, 'e) loop_state \<Rightarrow>
     (error \<times> ('g, 'e) world) + ('g, 'e) loop_state" where
  "end_episode X episode s =
     (case episode_rewards s of
        [] \<Rightarrow> Inl (ValueError ''zero-size array to reduction operation minimum which has no identity'',
                   world_of s)
      | r # rs \<Rightarrow>
          (let st = stats_of s
           in Inr (s\<lparr>stats_of := st\<lparr>
                episode_outcomes := (episode_outcomes st)[episode := sbe_outcome X (r # rs) (gamma s)],
                true_min := (true_min st)[episode := fold min rs r],
                episode_lengths := (episode_lengths st)[episode := real (length (r # rs))],
                average_episode_rewards :=
                  (average_episode_rewards st)[episode := sum_list (r # rs) / real (length (r # rs))],
                stats_learning_rate := (stats_learning_rate st)[episode := alpha s],
                stats_epsilon := (stats_epsilon st)[episode := epsilon s],
                stats_gamma := (stats_gamma st)[episode := gamma s],
                stats_episode := episode\<rparr>\<rparr>)))"

definition run_episode ::
  "('g, 'e, 'o, 'b) externals \<Rightarrow> learn_args \<Rightarrow> int \<Rightarrow> nat \<Rightarrow> ('g, 'e) loop_state \<Rightarrow>
     ((error \<times> ('g, 'e) world) + ('g, 'e) loop_state) option" where
  "run_episode X A start_ep episode s =
     (case step_loop X A start_ep episode (begin_episode X A s) of
        None \<Rightarrow> None
      | Some (Inl err) \<Rightarrow> Some (Inl err)
      | Some (Inr s') \<Rightarrow> Some (end_episode X episode s'))"

subsection \<open>The episode loop and \<^verbatim>\<open>learn\<close>\<close>

fun main_loop ::
  "('g, 'e, 'o, 'b) externals \<Rightarrow> learn_args \<Rightarrow> int \<Rightarrow> nat list \<Rightarrow> ('g, 'e) loop_state \<Rightarrow>
     ((error \<times> ('g, 'e) world) + ('g, 'e) loop_state) option" where
  "main_loop X A start_ep [] s = Some (Inr s)"
| "main_loop X A start_ep (episode # rest) s =
     (case run_episode X A start_ep episode s of
        None \<Rightarrow> None
      | Some (Inl err) \<Rightarrow> Some (Inl err)
      | Some (Inr s') \<Rightarrow> main_loop X A start_ep rest s')"

text \<open>The state on entry to the episode loop (lines 90-116), for a validated table.\<close>

definition initial_state ::
  "('g, 'e, 'o, 'b) externals \<Rightarrow> learn_args \<Rightarrow> clock \<Rightarrow> ndarray \<Rightarrow> ('g, 'e) world \<Rightarrow>
     ('g, 'e) loop_state" where
  "initial_state X A clk q w =
     (let st = init_stats X A clk q (env w);
          w' = w\<lparr>env := set_discretization X (buckets A) (state_bounds A) (env w)\<rparr>;
          start_ep = (case start_episode A of None \<Rightarrow> 0 | Some n \<Rightarrow> n)
      in \<lparr>world_of = w', q_values = q, stats_of = st, state = [], done_flag = False,
          t_count = 0, episode_rewards = [],
          epsilon = get_epsilon A start_ep 1,
          alpha = get_learning_rate A start_ep 1,
          gamma = get_gamma A start_ep 1\<rparr>)"

text \<open>The run on a validated table: lines 90-190.\<close>

definition train ::
  "('g, 'e, 'o, 'b) externals \<Rightarrow> learn_args \<Rightarrow> clock \<Rightarrow> ndarray \<Rightarrow> ('g, 'e) world \<Rightarrow>
     ((error + ndarray \<times> stats) \<times> ('g, 'e) world) option" where
  "train X A clk q w =
     (let start_ep = (case start_episode A of None \<Rightarrow> 0 | Some n \<Rightarrow> n)
      in case main_loop X A start_ep [0..<max_episodes A] (initial_state X A clk q w) of
           None \<Rightarrow> None
         | Some (Inl (err, w')) \<Rightarrow> Some (Inl err, w')
         | Some (Inr s) \<Rightarrow>
             Some (Inr (q_values s,
                        (stats_of s)\<lparr>time_elapsed :=
                           Some (process_time_end clk - process_time_start clk)\<rparr>),
                   world_of s))"

definition learn ::
  "('g, 'e, 'o, 'b) externals \<Rightarrow> learn_args \<Rightarrow> clock \<Rightarrow> ('g, 'e) world \<Rightarrow>
     ((error + ndarray \<times> stats) \<times> ('g, 'e) world) option" where
  "learn X A clk w =
     (let w1 = w\<lparr>rng := np_random_seed X (seed A)\<rparr>
      in case setup_q_values X A (env w1) of
           Inl err \<Rightarrow> Some (Inl err, w1)
         | Inr q \<Rightarrow> train X A clk q w1)"

subsection \<open>Auxiliary notions for the statements\<close>

text \<open>
  The pair (state, action) at which a pass through the loop body, started in a given
  loop state, counts a visit and writes a value: the current state together with the
  action that the call of line 131 selects.
\<close>

definition updated_pair ::
  "('g, 'e, 'o, 'b) externals \<Rightarrow> ('g, 'e) loop_state \<Rightarrow> nat list option" where
  "updated_pair X s =
     (case fst (select_action X (q_values s) (state s) (PyFloat (epsilon s)) 0 (world_of s)) of
        Inl e \<Rightarrow> None
      | Inr a \<Rightarrow> Some (state s @ [a]))"

text \<open>
  The passes of a step loop that returns: \<open>step_loop_passes X A se ep s ps s'\<close> says that
  the step loop started in \<open>s\<close> ends in \<open>s'\<close> and that \<open>ps\<close> lists, in order, the pairs
  of its passes through the loop body.
\<close>

inductive step_loop_passes ::
  "('g, 'e, 'o, 'b) externals \<Rightarrow> learn_args \<Rightarrow> int \<Rightarrow> nat \<Rightarrow> ('g, 'e) loop_state \<Rightarrow>
     nat list list \<Rightarrow> ('g, 'e) loop_state \<Rightarrow> bool"
  for X :: "('g, 'e, 'o, 'b) externals" and A :: learn_args and se :: int and ep :: nat where
  no_pass: "done_flag s \<Longrightarrow> step_loop_passes X A se ep s [] s"
| last_pass:
    "\<not> done_flag s \<Longrightarrow> loop_body X A se ep s = Inr s' \<Longrightarrow> updated_pair X s = Some p \<Longrightarrow>
     length_reached (max_episode_length A) (t_count s') \<Longrightarrow>
     step_loop_passes X A se ep s [p] s'"
| next_pass:
    "\<not> done_flag s \<Longrightarrow> loop_body X A se ep s = Inr s1 \<Longrightarrow> updated_pair X s = Some p \<Longrightarrow>
     \<not> length_reached (max_episode_length A) (t_count s1) \<Longrightarrow>
     step_loop_passes X A se ep s1 ps s' \<Longrightarrow>
     step_loop_passes X A se ep s (p # ps) s'"

text \<open>
  The passes of the episode loop: the passes of its episodes, one episode after the
  other.
\<close>

inductive main_loop_passes ::
  "('g, 'e, 'o, 'b) externals \<Rightarrow> learn_args \<Rightarrow> int \<Rightarrow> nat list \<Rightarrow> ('g, 'e) loop_state \<Rightarrow>
     nat list list \<Rightarrow> ('g, 'e) loop_state \<Rightarrow> bool"
  for X :: "('g, 'e, 'o, 'b) externals" and A :: learn_args and se :: int where
  no_episode: "main_loop_passes X A se [] s [] s"
| one_episode:
    "step_loop_passes X A se ep (begin_episode X A s) ps s1 \<Longrightarrow>
     end_episode X ep s1 = Inr s2 \<Longrightarrow>
     main_loop_passes X A se eps s2 qs s' \<Longrightarrow>
     main_loop_passes X A se (ep # eps) s (ps @ qs) s'"

text \<open>The outcome of a run with the two clock-dependent statistics blanked.\<close>

definition forget_clock ::
  "((error + ndarray \<times> stats) \<times> ('g, 'e) world) option \<Rightarrow>
     ((error + ndarray \<times> stats) \<times> ('g, 'e) world) option" where
  "forget_clock r =
     map_option
       (map_prod (map_sum id (\<lambda>(q, st). (q, st\<lparr>start_time := [], time_elapsed := None\<rparr>))) id) r"

subsection \<open>A deterministic environment stub\<close>

text \<open>
  One state bucket, two actions. Every step yields the observation \<open>0\<close>, the reward
  \<open>1\<close> and the flag \<open>dn\<close>; the generator always draws \<open>1/2\<close>; the action-space
  sampler always answers action \<open>1\<close>. The warm-start table prefers action \<open>0\<close>.
\<close>

definition stub_env :: "bool \<Rightarrow> (nat, nat, real, unit) externals" where
  "stub_env dn =
     \<lparr>np_random_seed = (\<lambda>sd. 0),
      np_random_random = (\<lambda>g. (1 / 2, Suc g)),
      env_reset = (\<lambda>e. (0, e)),
      env_step = (\<lambda>a e. ((0, 1, dn), Suc e)),
      action_space_sample = (\<lambda>w. (1, w)),
      action_space_n = (\<lambda>e. 2),
      l_function = (\<lambda>e x. 0),
      set_discretization = (\<lambda>b sb e. e),
      env_bins = (\<lambda>e. ()),
      env_spec_id = (\<lambda>e. ''stub-v0''),
      discrete_to_real = (\<lambda>b sb idx. 0),
      discretize_state = (\<lambda>b sb bins x. [0]),
      sbe_outcome = (\<lambda>rs g. 0)\<rparr>"

definition stub_table :: ndarray where
  "stub_table = \<lparr>shape = [1, 2], cells = (\<lambda>idx. if idx = [0, 0] then 2 else 0)\<rparr>"

definition stub_args :: learn_args where
  "stub_args =
     \<lparr>get_learning_rate = (\<lambda>ep v. 1 / 10),
      get_epsilon = (\<lambda>ep v. 1),
      get_gamma = (\<lambda>ep v. 9 / 10),
      max_episodes = 1,
      buckets = [1],
      state_bounds = [(0, 1)],
      max_episode_length = Some 1,
      q_values_arg = Some stub_table,
      start_episode = Some 0,
      seed = 0,
      fictitious_terminal_val = Some 0,
      use_sbe = True\<rparr>"

definition stub_clock :: clock where
  "stub_clock = \<lparr>process_time_start = 0, now_strftime = ''Jan_01_20 00:00:00'', process_time_end = 1\<rparr>"

definition stub_world :: "(nat, nat) world" where
  "stub_world = \<lparr>rng = 7, env = 0\<rparr>"

definition stub_state :: "bool \<Rightarrow> (nat, nat) loop_state" where
  "stub_state dn =
     begin_episode (stub_env dn) stub_args
       (initial_state (stub_env dn) stub_args stub_clock stub_table
          (stub_world\<lparr>rng := 0\<rparr>))"

definition stub_next :: "bool \<Rightarrow> (nat, nat) loop_state" where
  "stub_next dn =
     (stub_state dn)
       \<lparr>world_of := \<lparr>rng = 1, env = 1\<rparr>,
        q_values := stub_table\<lparr>cells := (cells stub_table)([0, 0] := 19 / 10)\<rparr>,
        stats_of := (stats_of (stub_state dn))
           \<lparr>state_action_visits := \<lparr>shape = [1, 2], cells = (\<lambda>idx. 0)([0, 0] := 1)\<rparr>\<rparr>,
        state := [0],
        done_flag := dn,
        t_count := 1,
        episode_rewards := [1],
        epsilon := 1,
        alpha := 1 / 10,
        gamma := 9 / 10\<rparr>"

definition stub_final_stats :: "clock \<Rightarrow> stats" where
  "stub_final_stats clk =
     \<lparr>start_time = now_strftime clk,
      episode_lengths = [1],
      average_episode_rewards = [1],
      true_min = [1],
      episode_outcomes = [0],
      state_action_visits = \<lparr>shape = [1, 2], cells = (\<lambda>idx. 0)([0, 0] := 1)\<rparr>,
      stats_epsilon = [1],
      stats_learning_rate = [1 / 10],
      stats_state_bounds = [(0, 1)],
      stats_buckets = [1],
      stats_gamma = [9 / 10],
      stats_type = ''tabular q_values-learning'',
      stats_environment = ''stub-v0'',
      stats_seed = 0,
      stats_episode = 0,
      time_elapsed = Some (process_time_end clk - process_time_start clk)\<rparr>"

definition stub_result ::
  "clock \<Rightarrow> ((error + ndarray \<times> stats) \<times> (nat, nat) world) option" where
  "stub_result clk =
     Some (Inr (stub_table\<lparr>cells := (cells stub_table)([0, 0] := 19 / 10)\<rparr>, stub_final_stats clk),
           \<lparr>rng = 1, env = 1\<rparr>)"

definition stub_clock_later :: clock where
  "stub_clock_later =
     \<lparr>process_time_start = 0, now_strftime = ''Jan_01_20 00:00:07'', process_time_end = 2\<rparr>"

text \<open>The loop state of the stub run after its only episode has been recorded.\<close>

definition stub_last :: "bool \<Rightarrow> (nat, nat) loop_state" where
  "stub_last dn = (stub_next dn)\<lparr>stats_of := (stub_final_stats stub_clock)\<lparr>time_elapsed := None\<rparr>\<rparr>"

text \<open>Replacing the recorded start time in a loop state.\<close>

definition with_start_time :: "string \<Rightarrow> ('g, 'e) loop_state \<Rightarrow> ('g, 'e) loop_state" where
  "with_start_time x s = s\<lparr>stats_of := (stats_of s)\<lparr>start_time := x\<rparr>\<rparr>"

section \<open>Basic facts\<close>

subsection \<open>Arrays and the backup\<close>

lemma new_q_if: "new_q dn qt qn = (if dn then qt else qn)"
  by (simp add: new_q_def)

lemma np_amax_Max:
  assumes "np_amax row = Inr m"
  shows "row \<noteq> [] \<and> m = Max (set row)"
proof (cases row)
  case Nil
  with assms show ?thesis by (simp add: np_amax_def)
next
  case (Cons x rest)
  with assms have "m = fold max rest x" by (simp add: np_amax_def)
  with Cons Max.set_eq_fold [of x rest] show ?thesis by simp
qed

lemma getitem_InrD: "getitem a idx = Inr v \<Longrightarrow> valid_index (shape a) idx \<and> v = cells a idx"
  by (auto simp: getitem_def split: if_splits)

lemma setitem_InrD:
  "setitem a idx v = Inr a' \<Longrightarrow> a' = a\<lparr>cells := (cells a)(idx := v)\<rparr>"
  by (auto simp: setitem_def split: if_splits)

lemma inc_item_InrD:
  "inc_item a idx = Inr a' \<Longrightarrow>
     valid_index (shape a) idx \<and> a' = a\<lparr>cells := (cells a)(idx := cells a idx + 1)\<rparr>"
  by (auto simp: inc_item_def getitem_def setitem_def split: if_splits)

text \<open>
  \<open>np_argmax\<close> returns the first position that holds the largest entry.
\<close>

lemma argmax_scan_first_max:
  assumes "length pre = i" and "best < i" and "pre ! best = bv"
    and "\<forall>j<i. pre ! j \<le> bv" and "\<forall>j<best. pre ! j < bv"
  shows "argmax_scan xs i best bv < length (pre @ xs)
     \<and> (\<forall>j<length (pre @ xs). (pre @ xs) ! j \<le> (pre @ xs) ! argmax_scan xs i best bv)
     \<and> (\<forall>j<argmax_scan xs i best bv. (pre @ xs) ! j < (pre @ xs) ! argmax_scan xs i best bv)"
  using assms
proof (induction xs arbitrary: pre i best bv)
  case Nil
  then show ?case by auto
next
  case (Cons x xs)
  show ?case
  proof (cases "bv < x")
    case True
    have "argmax_scan xs (Suc i) i x < length ((pre @ [x]) @ xs)
     \<and> (\<forall>j<length ((pre @ [x]) @ xs). ((pre @ [x]) @ xs) ! j \<le> ((pre @ [x]) @ xs) ! argmax_scan xs (Suc i) i x)
     \<and> (\<forall>j<argmax_scan xs (Suc i) i x. ((pre @ [x]) @ xs) ! j < ((pre @ [x]) @ xs) ! argmax_scan xs (Suc i) i x)"
    proof (rule Cons.IH)
      show "length (pre @ [x]) = Suc i" using Cons.prems by simp
      show "i < Suc i" by simp
      show "(pre @ [x]) ! i = x" using Cons.prems by (auto simp: nth_append)
      show "\<forall>j<Suc i. (pre @ [x]) ! j \<le> x"
        using Cons.prems True by (auto simp: nth_append less_Suc_eq intro: order_trans less_imp_le)
      show "\<forall>j<i. (pre @ [x]) ! j < x"
        using Cons.prems True by (auto simp: nth_append intro: le_less_trans)
    qed
    with True show ?thesis by simp
  next
    case False
    have "argmax_scan xs (Suc i) best bv < length ((pre @ [x]) @ xs)
     \<and> (\<forall>j<length ((pre @ [x]) @ xs). ((pre @ [x]) @ xs) ! j \<le> ((pre @ [x]) @ xs) ! argmax_scan xs (Suc i) best bv)
     \<and> (\<forall>j<argmax_scan xs (Suc i) best bv. ((pre @ [x]) @ xs) ! j < ((pre @ [x]) @ xs) ! argmax_scan xs (Suc i) best bv)"
    proof (rule Cons.IH)
      show "length (pre @ [x]) = Suc i" using Cons.prems by simp
      show "best < Suc i" using Cons.prems by simp
      show "(pre @ [x]) ! best = bv" using Cons.prems by (simp add: nth_append)
      show "\<forall>j<Suc i. (pre @ [x]) ! j \<le> bv"
        using Cons.prems False by (auto simp: nth_append less_Suc_eq)
      show "\<forall>j<best. (pre @ [x]) ! j < bv"
        using Cons.prems by (auto simp: nth_append)
    qed
    with False show ?thesis by simp
  qed
qed

lemma np_argmax_first_max:
  assumes "np_argmax xs = Inr a"
  shows "a < length xs \<and> (\<forall>j<length xs. xs ! j \<le> xs ! a) \<and> (\<forall>j<a. xs ! j < xs ! a)"
proof (cases xs)
  case Nil
  with assms show ?thesis by (simp add: np_argmax_def)
next
  case (Cons x rest)
  with assms have a: "a = argmax_scan rest 1 0 x" by (simp add: np_argmax_def)
  from argmax_scan_first_max [of "[x]" 1 0 x rest] Cons a show ?thesis by simp
qed

subsection \<open>One pass through the loop body\<close>

lemma loop_body_InrE:
  assumes "loop_body X A se ep s = Inr s'"
  obtains a w1 obs reward dn e2 visits row next_max old q' where
    "select_action X (q_values s) (state s) (PyFloat (epsilon s)) 0 (world_of s) = (Inr a, w1)"
    "env_step X a (env w1) = ((obs, reward, dn), e2)"
    "inc_item (state_action_visits (stats_of s)) (state s @ [a]) = Inr visits"
    "getrow (q_values s) (discretize_state X (buckets A) (state_bounds A) (env_bins X e2) obs) = Inr row"
    "np_amax row = Inr next_max"
    "getitem (q_values s) (state s @ [a]) = Inr old"
    "setitem (q_values s) (state s @ [a])
       ((1 - get_learning_rate A (int ep + se) (cells visits (state s @ [a]))) * old
        + get_learning_rate A (int ep + se) (cells visits (state s @ [a]))
          * new_q dn
              (q_terminal (use_sbe A) (fictitious_terminal_val A)
                 (get_gamma A (int ep + se) (cells visits (state s @ [a]))) reward)
              (q_non_terminal (use_sbe A)
                 (get_gamma A (int ep + se) (cells visits (state s @ [a]))) reward next_max))
       = Inr q'"
    "s' = s\<lparr>world_of := w1\<lparr>env := e2\<rparr>,
            q_values := q',
            stats_of := (stats_of s)\<lparr>state_action_visits := visits\<rparr>,
            state := discretize_state X (buckets A) (state_bounds A) (env_bins X e2) obs,
            done_flag := dn,
            t_count := Suc (t_count s),
            episode_rewards := episode_rewards s @ [reward],
            epsilon := get_epsilon A (int ep + se) (cells visits (state s @ [a])),
            alpha := get_learning_rate A (int ep + se) (cells visits (state s @ [a])),
            gamma := get_gamma A (int ep + se) (cells visits (state s @ [a]))\<rparr>"
  using assms unfolding loop_body_def
  by (auto simp: Let_def split: prod.splits sum.splits)

text \<open>What one pass through the loop body does to the value table.\<close>

lemma loop_body_update:
  assumes "loop_body X A se ep s = Inr s'"
  shows "\<exists>a w1 row.
     select_action X (q_values s) (state s) (PyFloat (epsilon s)) 0 (world_of s) = (Inr a, w1) \<and>
     done_flag s' = snd (snd (fst (env_step X a (env w1)))) \<and>
     getrow (q_values s) (state s') = Inr row \<and> row \<noteq> [] \<and>
     cells (q_values s') (state s @ [a]) =
       (1 - alpha s') * cells (q_values s) (state s @ [a])
       + alpha s' *
           (if done_flag s'
            then q_terminal (use_sbe A) (fictitious_terminal_val A) (gamma s')
                   (last (episode_rewards s'))
            else q_non_terminal (use_sbe A) (gamma s') (last (episode_rewards s'))
                   (Max (set row))) \<and>
     (\<forall>idx. idx \<noteq> state s @ [a] \<longrightarrow> cells (q_values s') idx = cells (q_values s) idx) \<and>
     shape (q_values s') = shape (q_values s)"
  using assms
proof (rule loop_body_InrE)
  fix a w1 obs reward dn e2 visits row next_max old q'
  assume sel: "select_action X (q_values s) (state s) (PyFloat (epsilon s)) 0 (world_of s) = (Inr a, w1)"
    and stp: "env_step X a (env w1) = ((obs, reward, dn), e2)"
    and row: "getrow (q_values s) (discretize_state X (buckets A) (state_bounds A) (env_bins X e2) obs) = Inr row"
    and mx: "np_amax row = Inr next_max"
    and old: "getitem (q_values s) (state s @ [a]) = Inr old"
    and set: "setitem (q_values s) (state s @ [a])
       ((1 - get_learning_rate A (int ep + se) (cells visits (state s @ [a]))) * old
        + get_learning_rate A (int ep + se) (cells visits (state s @ [a]))
          * new_q dn
              (q_terminal (use_sbe A) (fictitious_terminal_val A)
                 (get_gamma A (int ep + se) (cells visits (state s @ [a]))) reward)
              (q_non_terminal (use_sbe A)
                 (get_gamma A (int ep + se) (cells visits (state s @ [a]))) reward next_max))
       = Inr q'"
    and s': "s' = s\<lparr>world_of := w1\<lparr>env := e2\<rparr>,
            q_values := q',
            stats_of := (stats_of s)\<lparr>state_action_visits := visits\<rparr>,
            state := discretize_state X (buckets A) (state_bounds A) (env_bins X e2) obs,
            done_flag := dn,
            t_count := Suc (t_count s),
            episode_rewards := episode_rewards s @ [reward],
            epsilon := get_epsilon A (int ep + se) (cells visits (state s @ [a])),
            alpha := get_learning_rate A (int ep + se) (cells visits (state s @ [a])),
            gamma := get_gamma A (int ep + se) (cells visits (state s @ [a]))\<rparr>"
  note mxD = np_amax_Max [OF mx]
  note oldD = getitem_InrD [OF old]
  note q'D = setitem_InrD [OF set]
  have "done_flag s' = snd (snd (fst (env_step X a (env w1))))"
    by (simp add: s' stp)
  moreover have "getrow (q_values s) (state s') = Inr row"
    by (simp add: s' row)
  moreover have "cells (q_values s') (state s @ [a]) =
       (1 - alpha s') * cells (q_values s) (state s @ [a])
       + alpha s' *
           (if done_flag s'
            then q_terminal (use_sbe A) (fictitious_terminal_val A) (gamma s')
                   (last (episode_rewards s'))
            else q_non_terminal (use_sbe A) (gamma s') (last (episode_rewards s'))
                   (Max (set row)))"
    by (simp add: s' q'D oldD mxD new_q_if)
  moreover have "\<forall>idx. idx \<noteq> state s @ [a] \<longrightarrow> cells (q_values s') idx = cells (q_values s) idx"
    by (simp add: s' q'D)
  moreover have "shape (q_values s') = shape (q_values s)"
    by (simp add: s' q'D)
  ultimately show ?thesis
    using sel mxD by blast
qed

lemma loop_body_visits:
  assumes "loop_body X A se ep s = Inr s'"
  shows "\<exists>a. fst (select_action X (q_values s) (state s) (PyFloat (epsilon s)) 0 (world_of s)) = Inr a
     \<and> inc_item (state_action_visits (stats_of s)) (state s @ [a])
         = Inr (state_action_visits (stats_of s'))"
  using assms
proof (rule loop_body_InrE)
  fix a w1 visits q' obs reward dn e2
  assume sel: "select_action X (q_values s) (state s) (PyFloat (epsilon s)) 0 (world_of s) = (Inr a, w1)"
    and inc: "inc_item (state_action_visits (stats_of s)) (state s @ [a]) = Inr visits"
    and s': "s' = s\<lparr>world_of := w1\<lparr>env := e2\<rparr>,
            q_values := q',
            stats_of := (stats_of s)\<lparr>state_action_visits := visits\<rparr>,
            state := discretize_state X (buckets A) (state_bounds A) (env_bins X e2) obs,
            done_flag := dn,
            t_count := Suc (t_count s),
            episode_rewards := episode_rewards s @ [reward],
            epsilon := get_epsilon A (int ep + se) (cells visits (state s @ [a])),
            alpha := get_learning_rate A (int ep + se) (cells visits (state s @ [a])),
            gamma := get_gamma A (int ep + se) (cells visits (state s @ [a]))\<rparr>"
  have "state_action_visits (stats_of s') = visits" by (simp add: s')
  with sel inc show ?thesis by simp
qed

lemma loop_body_visits_mono:
  assumes "loop_body X A se ep s = Inr s'"
  shows "cells (state_action_visits (stats_of s)) p \<le> cells (state_action_visits (stats_of s')) p"
proof -
  from loop_body_visits [OF assms] obtain a where
    "inc_item (state_action_visits (stats_of s)) (state s @ [a])
       = Inr (state_action_visits (stats_of s'))"
    by blast
  from inc_item_InrD [OF this] show ?thesis by simp
qed

text \<open>
  The pass does not read \<^verbatim>\<open>max_episode_length\<close>, nor the current \<^verbatim>\<open>epsilon\<close> as long
  as the generator draws non-negative numbers.
\<close>

lemma loop_body_max_episode_length:
  "loop_body X (A\<lparr>max_episode_length := m\<rparr>) se ep s = loop_body X A se ep s"
  by (auto simp: loop_body_def Let_def split: prod.splits sum.splits)

lemma loop_body_ignores_epsilon:
  assumes "0 \<le> fst (np_random_random X (rng (world_of s)))"
  shows "loop_body X A se ep (s\<lparr>epsilon := e\<rparr>) = loop_body X A se ep s"
  using assms
  by (auto simp: loop_body_def select_action_def Let_def split: prod.splits sum.splits)

subsection \<open>Two rules for the step loop\<close>

text \<open>
  A simulation: a map on loop states that commutes with the loop body commutes with the
  whole loop, for every run that returns.
\<close>

lemma step_loop_simulation:
  fixes X :: "('g, 'e, 'o, 'b) externals" and X' :: "('g, 'e, 'o, 'b) externals"
  assumes run: "step_loop X A se ep s = Some r"
    and body: "\<And>s. loop_body X' A' se ep (f s) = map_sum id f (loop_body X A se ep s)"
    and dn: "\<And>s. done_flag (f s) = done_flag s"
    and tc: "\<And>s. t_count (f s) = t_count s"
    and mel: "max_episode_length A' = max_episode_length A"
  shows "step_loop X' A' se ep (f s) = Some (map_sum id f r)"
proof -
  define P where "P = (\<lambda>X0 A0 se0 ep0 s r.
        X0 = X \<and> A0 = A \<and> se0 = se \<and> ep0 = ep \<longrightarrow>
        step_loop X' A' se ep (f s) = Some (map_sum id f r))"
  have "P X A se ep s r"
  proof (rule step_loop.raw_induct [where P = P, OF _ run], goal_cases)
    case (1 step_loop0 X0 A0 se0 ep0 s r)
    show ?case unfolding P_def
    proof (intro impI)
      assume eq: "X0 = X \<and> A0 = A \<and> se0 = se \<and> ep0 = ep"
      show "step_loop X' A' se ep (f s) = Some (map_sum id f r)"
      proof (cases "done_flag s")
        case True
        with 1(2) have "r = Inr s" by simp
        with True show ?thesis by (subst step_loop.simps) (simp add: dn)
      next
        case nd: False
        show ?thesis
        proof (cases "loop_body X A se ep s")
          case (Inl err)
          with nd 1(2) eq have "r = Inl err" by simp
          with nd Inl show ?thesis by (subst step_loop.simps) (simp add: dn body)
        next
          case (Inr s1)
          show ?thesis
          proof (cases "length_reached (max_episode_length A) (t_count s1)")
            case True
            with nd Inr 1(2) eq have "r = Inr s1" by simp
            with nd Inr True show ?thesis
              by (subst step_loop.simps) (simp add: dn body tc mel)
          next
            case False
            with nd Inr 1(2) eq have "step_loop0 X A se ep s1 = Some r" by simp
            from 1(1) [OF this] have "step_loop X' A' se ep (f s1) = Some (map_sum id f r)"
              by (simp add: P_def)
            with nd Inr False show ?thesis
              by (subst step_loop.simps) (simp add: dn body tc mel)
          qed
        qed
      qed
    qed
  qed
  then show ?thesis by (simp add: P_def)
qed

text \<open>A relation that every pass establishes holds between the ends of a loop that returns.\<close>

lemma step_loop_rel:
  fixes X :: "('g, 'e, 'o, 'b) externals"
  assumes run: "step_loop X A se ep s = Some (Inr s')"
    and step: "\<And>s s'. loop_body X A se ep s = Inr s' \<Longrightarrow> R s s'"
    and refl: "\<And>s. R s s"
    and trans: "\<And>a b c. R a b \<Longrightarrow> R b c \<Longrightarrow> R a c"
  shows "R s s'"
proof -
  define P where "P = (\<lambda>X0 A0 se0 ep0 s (r :: (error \<times> ('g, 'e) world) + ('g, 'e) loop_state).
        X0 = X \<and> A0 = A \<and> se0 = se \<and> ep0 = ep \<longrightarrow> (\<forall>s'. r = Inr s' \<longrightarrow> R s s'))"
  have "P X A se ep s (Inr s')"
  proof (rule step_loop.raw_induct [where P = P, OF _ run], goal_cases)
    case (1 step_loop0 X0 A0 se0 ep0 s r)
    show ?case unfolding P_def
    proof (intro impI allI)
      fix s'
      assume eq: "X0 = X \<and> A0 = A \<and> se0 = se \<and> ep0 = ep" and r: "r = Inr s'"
      show "R s s'"
      proof (cases "done_flag s")
        case True
        with 1(2) r have "s' = s" by simp
        then show ?thesis by (simp add: refl)
      next
        case nd: False
        show ?thesis
        proof (cases "loop_body X A se ep s")
          case (Inl err)
          with nd 1(2) eq r show ?thesis by simp
        next
          case (Inr s1)
          note R1 = step [OF Inr]
          show ?thesis
          proof (cases "length_reached (max_episode_length A) (t_count s1)")
            case True
            with nd Inr 1(2) eq r have "s' = s1" by simp
            with R1 show ?thesis by simp
          next
            case False
            with nd Inr 1(2) eq have "step_loop0 X A se ep s1 = Some r" by simp
            from 1(1) [OF this] r have "R s1 s'" by (simp add: P_def)
            with R1 show ?thesis by (rule trans)
          qed
        qed
      qed
    qed
  qed
  then show ?thesis by (simp add: P_def)
qed

subsection \<open>Visit counts never decrease\<close>

lemma step_loop_visits_mono:
  assumes "step_loop X A se ep s = Some (Inr s')"
  shows "cells (state_action_visits (stats_of s)) p \<le> cells (state_action_visits (stats_of s')) p"
  by (rule step_loop_rel [OF assms,
        where R = "\<lambda>s s'. cells (state_action_visits (stats_of s)) p
                          \<le> cells (state_action_visits (stats_of s')) p"])
     (auto intro: loop_body_visits_mono)

lemma run_episode_visits_mono:
  assumes "run_episode X A se ep s = Some (Inr s')"
  shows "cells (state_action_visits (stats_of s)) p \<le> cells (state_action_visits (stats_of s')) p"
proof -
  from assms obtain s1 where
    run: "step_loop X A se ep (begin_episode X A s) = Some (Inr s1)"
    and fin: "end_episode X ep s1 = Inr s'"
    by (auto simp: run_episode_def split: option.splits sum.splits)
  have "state_action_visits (stats_of (begin_episode X A s)) = state_action_visits (stats_of s)"
    by (simp add: begin_episode_def split: prod.splits)
  moreover from fin have "state_action_visits (stats_of s') = state_action_visits (stats_of s1)"
    by (auto simp: end_episode_def Let_def split: list.splits)
  ultimately show ?thesis using step_loop_visits_mono [OF run, of p] by simp
qed

lemma main_loop_visits_mono:
  "main_loop X A se eps s = Some (Inr s') \<Longrightarrow>
   cells (state_action_visits (stats_of s)) p \<le> cells (state_action_visits (stats_of s')) p"
proof (induction eps arbitrary: s)
  case Nil
  then show ?case by simp
next
  case (Cons ep eps)
  from Cons.prems obtain s1 where
    ep: "run_episode X A se ep s = Some (Inr s1)" and rest: "main_loop X A se eps s1 = Some (Inr s')"
    by (auto split: option.splits sum.splits)
  from run_episode_visits_mono [OF ep, of p] Cons.IH [OF rest] show ?case by simp
qed

subsection \<open>The passes of a run and the visits it counts\<close>

lemma loop_body_updated_pair:
  assumes "loop_body X A se ep s = Inr s'"
  shows "\<exists>p. updated_pair X s = Some p
     \<and> inc_item (state_action_visits (stats_of s)) p = Inr (state_action_visits (stats_of s'))
     \<and> (\<forall>idx. idx \<noteq> p \<longrightarrow> cells (q_values s') idx = cells (q_values s) idx)"
proof -
  from loop_body_update [OF assms] obtain a w1 where
    sel: "select_action X (q_values s) (state s) (PyFloat (epsilon s)) 0 (world_of s) = (Inr a, w1)"
    and frame: "\<forall>idx. idx \<noteq> state s @ [a] \<longrightarrow> cells (q_values s') idx = cells (q_values s) idx"
    by blast
  from loop_body_visits [OF assms] sel have
    "inc_item (state_action_visits (stats_of s)) (state s @ [a])
       = Inr (state_action_visits (stats_of s'))"
    by simp
  moreover from sel have "updated_pair X s = Some (state s @ [a])"
    by (simp add: updated_pair_def)
  ultimately show ?thesis using frame by blast
qed

lemma pass_counts_one:
  assumes "loop_body X A se ep s = Inr s'" and "updated_pair X s = Some p"
  shows "cells (state_action_visits (stats_of s')) idx
     = cells (state_action_visits (stats_of s)) idx + (if idx = p then 1 else 0)"
proof -
  from loop_body_updated_pair [OF assms(1)] assms(2) have
    "inc_item (state_action_visits (stats_of s)) p = Inr (state_action_visits (stats_of s'))"
    by auto
  from inc_item_InrD [OF this] show ?thesis by simp
qed

lemma begin_episode_visits:
  "state_action_visits (stats_of (begin_episode X A s)) = state_action_visits (stats_of s)"
  by (simp add: begin_episode_def split: prod.splits)

lemma end_episode_visits:
  "end_episode X ep s = Inr s' \<Longrightarrow>
   state_action_visits (stats_of s') = state_action_visits (stats_of s)"
  by (auto simp: end_episode_def Let_def split: list.splits)

text \<open>The relation describes exactly the step loops that return a loop state.\<close>

lemma step_loop_passes_sound:
  "step_loop_passes X A se ep s ps s' \<Longrightarrow> step_loop X A se ep s = Some (Inr s')"
proof (induction rule: step_loop_passes.induct)
  case (no_pass s)
  then show ?case by (subst step_loop.simps) simp
next
  case (last_pass s s' p)
  then show ?case by (subst step_loop.simps) simp
next
  case (next_pass s s1 p ps s')
  then show ?case by (subst step_loop.simps) simp
qed

lemma step_loop_passes_complete:
  fixes X :: "('g, 'e, 'o, 'b) externals"
  assumes run: "step_loop X A se ep s = Some (Inr s')"
  shows "\<exists>ps. step_loop_passes X A se ep s ps s'"
proof -
  define P where "P = (\<lambda>X0 A0 se0 ep0 s (r :: (error \<times> ('g, 'e) world) + ('g, 'e) loop_state).
        X0 = X \<and> A0 = A \<and> se0 = se \<and> ep0 = ep \<longrightarrow>
        (\<forall>s'. r = Inr s' \<longrightarrow> (\<exists>ps. step_loop_passes X A se ep s ps s')))"
  have "P X A se ep s (Inr s')"
  proof (rule step_loop.raw_induct [where P = P, OF _ run], goal_cases)
    case (1 step_loop0 X0 A0 se0 ep0 s r)
    show ?case unfolding P_def
    proof (intro impI allI)
      fix s'
      assume eq: "X0 = X \<and> A0 = A \<and> se0 = se \<and> ep0 = ep" and r: "r = Inr s'"
      show "\<exists>ps. step_loop_passes X A se ep s ps s'"
      proof (cases "done_flag s")
        case True
        with 1(2) r have "s' = s" by simp
        with True show ?thesis by (auto intro: step_loop_passes.no_pass)
      next
        case nd: False
        show ?thesis
        proof (cases "loop_body X A se ep s")
          case (Inl err)
          with nd 1(2) eq r show ?thesis by simp
        next
          case (Inr s1)
          from loop_body_updated_pair [OF Inr] obtain p where p: "updated_pair X s = Some p"
            by blast
          show ?thesis
          proof (cases "length_reached (max_episode_length A) (t_count s1)")
            case True
            with nd Inr 1(2) eq r have "s' = s1" by simp
            with nd Inr p True show ?thesis by (auto intro: step_loop_passes.last_pass)
          next
            case False
            with nd Inr 1(2) eq have "step_loop0 X A se ep s1 = Some r" by simp
            from 1(1) [OF this] r obtain ps where "step_loop_passes X A se ep s1 ps s'"
              by (auto simp: P_def)
            with nd Inr p False show ?thesis by (auto intro: step_loop_passes.next_pass)
          qed
        qed
      qed
    qed
  qed
  then show ?thesis by (simp add: P_def)
qed

lemma step_loop_passes_count:
  "step_loop_passes X A se ep s ps s' \<Longrightarrow>
   cells (state_action_visits (stats_of s')) idx
     = cells (state_action_visits (stats_of s)) idx + real (count_list ps idx)"
proof (induction rule: step_loop_passes.induct)
  case (no_pass s)
  show ?case by simp
next
  case (last_pass s s' p)
  from pass_counts_one [OF last_pass(2,3), of idx] show ?case by simp
next
  case (next_pass s s1 p ps s')
  from pass_counts_one [OF next_pass(2,3), of idx] next_pass.IH show ?case by simp
qed

lemma step_loop_passes_length:
  "step_loop_passes X A se ep s ps s' \<Longrightarrow> t_count s' = t_count s + length ps"
proof (induction rule: step_loop_passes.induct)
  case (no_pass s)
  show ?case by simp
next
  case (last_pass s s' p)
  from last_pass(2) have "t_count s' = Suc (t_count s)" by (rule loop_body_InrE) simp
  then show ?case by simp
next
  case (next_pass s s1 p ps s')
  from next_pass(2) have "t_count s1 = Suc (t_count s)" by (rule loop_body_InrE) simp
  with next_pass.IH show ?case by simp
qed

text \<open>The same for the episode loop.\<close>

lemma main_loop_passes_sound:
  "main_loop_passes X A se eps s ps s' \<Longrightarrow> main_loop X A se eps s = Some (Inr s')"
proof (induction rule: main_loop_passes.induct)
  case (no_episode s)
  show ?case by simp
next
  case (one_episode ep s ps s1 s2 eps qs s')
  from step_loop_passes_sound [OF one_episode(1)] one_episode(2)
  have "run_episode X A se ep s = Some (Inr s2)" by (simp add: run_episode_def)
  with one_episode.IH show ?case by simp
qed

lemma main_loop_passes_complete:
  "main_loop X A se eps s = Some (Inr s') \<Longrightarrow> \<exists>ps. main_loop_passes X A se eps s ps s'"
proof (induction eps arbitrary: s)
  case Nil
  then show ?case by (auto intro: main_loop_passes.no_episode)
next
  case (Cons ep eps)
  from Cons.prems obtain s2 where
    ep: "run_episode X A se ep s = Some (Inr s2)" and rest: "main_loop X A se eps s2 = Some (Inr s')"
    by (auto split: option.splits sum.splits)
  from ep obtain s1 where
    run: "step_loop X A se ep (begin_episode X A s) = Some (Inr s1)"
    and fin: "end_episode X ep s1 = Inr s2"
    by (auto simp: run_episode_def split: option.splits sum.splits)
  from step_loop_passes_complete [OF run] obtain ps where
    ps: "step_loop_passes X A se ep (begin_episode X A s) ps s1" by blast
  from Cons.IH [OF rest] obtain qs where qs: "main_loop_passes X A se eps s2 qs s'" by blast
  from main_loop_passes.one_episode [OF ps fin qs] show ?case by blast
qed

lemma main_loop_passes_count:
  "main_loop_passes X A se eps s ps s' \<Longrightarrow>
   cells (state_action_visits (stats_of s')) idx
     = cells (state_action_visits (stats_of s)) idx + real (count_list ps idx)"
proof (induction rule: main_loop_passes.induct)
  case (no_episode s)
  show ?case by simp
next
  case (one_episode ep s ps s1 s2 eps qs s')
  from step_loop_passes_count [OF one_episode(1), of idx]
  have "cells (state_action_visits (stats_of s1)) idx
      = cells (state_action_visits (stats_of s)) idx + real (count_list ps idx)"
    by (simp add: begin_episode_visits)
  with end_episode_visits [OF one_episode(2)] one_episode.IH show ?case by simp
qed

text \<open>The passes of a run are determined by the run.\<close>

lemma step_loop_passes_unique:
  "step_loop_passes X A se ep s ps s' \<Longrightarrow> step_loop_passes X A se ep s qs s'' \<Longrightarrow> qs = ps \<and> s'' = s'"
proof (induction arbitrary: qs s'' rule: step_loop_passes.induct)
  case (no_pass s)
  from no_pass(2) no_pass(1) show ?case by (cases rule: step_loop_passes.cases) auto
next
  case (last_pass s s' p)
  from last_pass(5) last_pass(1-4) show ?case by (cases rule: step_loop_passes.cases) auto
next
  case (next_pass s s1 p ps s')
  from next_pass(7) next_pass(1-4) next_pass.IH show ?case
    by (cases rule: step_loop_passes.cases) auto
qed

lemma main_loop_passes_unique:
  "main_loop_passes X A se eps s ps s' \<Longrightarrow> main_loop_passes X A se eps s qs s'' \<Longrightarrow> qs = ps \<and> s'' = s'"
proof (induction arbitrary: qs s'' rule: main_loop_passes.induct)
  case (no_episode s)
  from no_episode show ?case by (cases rule: main_loop_passes.cases) auto
next
  case (one_episode ep s ps s1 s2 eps rs s')
  note first = one_episode(1) and fin = one_episode(2) and IH = one_episode.IH
  from one_episode(5) obtain ps' s1' s2' qs' where
    qs: "qs = ps' @ qs'"
    and first': "step_loop_passes X A se ep (begin_episode X A s) ps' s1'"
    and fin': "end_episode X ep s1' = Inr s2'"
    and rest': "main_loop_passes X A se eps s2' qs' s''"
    by (cases rule: main_loop_passes.cases) auto
  from step_loop_passes_unique [OF first first'] have a: "ps' = ps" "s1' = s1" by simp_all
  with fin fin' have "s2' = s2" by simp
  with IH [of qs' s''] rest' have "qs' = rs \<and> s'' = s'" by simp
  with a qs show ?case by simp
qed

text \<open>The passes of a whole run, and the counts it returns.\<close>

lemma learn_passes:
  assumes "learn X A clk w = Some (Inr (q, st), w')"
  shows "\<exists>q0 sf ps.
      setup_q_values X A (env w) = Inr q0
    \<and> main_loop_passes X A (case start_episode A of None \<Rightarrow> 0 | Some n \<Rightarrow> n) [0..<max_episodes A]
         (initial_state X A clk q0 (w\<lparr>rng := np_random_seed X (seed A)\<rparr>)) ps sf
    \<and> state_action_visits st = state_action_visits (stats_of sf)
    \<and> (\<forall>idx. cells (state_action_visits (stats_of
            (initial_state X A clk q0 (w\<lparr>rng := np_random_seed X (seed A)\<rparr>)))) idx = 0)
    \<and> (\<forall>idx. cells (state_action_visits st) idx = real (count_list ps idx))"
proof -
  let ?w1 = "w\<lparr>rng := np_random_seed X (seed A)\<rparr>"
  let ?se = "case start_episode A of None \<Rightarrow> 0 | Some n \<Rightarrow> n"
  from assms obtain q0 where
    stp: "setup_q_values X A (env w) = Inr q0"
    and tr: "train X A clk q0 ?w1 = Some (Inr (q, st), w')"
    by (auto simp: learn_def Let_def split: sum.splits)
  from tr obtain sf where
    ml: "main_loop X A ?se [0..<max_episodes A] (initial_state X A clk q0 ?w1) = Some (Inr sf)"
    and st: "state_action_visits st = state_action_visits (stats_of sf)"
    by (auto simp: train_def Let_def split: option.splits sum.splits prod.splits)
  from main_loop_passes_complete [OF ml] obtain ps where
    ps: "main_loop_passes X A ?se [0..<max_episodes A] (initial_state X A clk q0 ?w1) ps sf"
    by blast
  have zero: "cells (state_action_visits (stats_of (initial_state X A clk q0 ?w1))) idx = 0" for idx
    by (simp add: initial_state_def init_stats_def np_zeros_def Let_def)
  have "cells (state_action_visits st) idx = real (count_list ps idx)" for idx
    using main_loop_passes_count [OF ps, of idx] st zero by simp
  with stp ps st zero show ?thesis by blast
qed

subsection \<open>The recorded start time is carried along unread\<close>

lemma with_start_time_simps:
  "world_of (with_start_time x s) = world_of s"
  "q_values (with_start_time x s) = q_values s"
  "state (with_start_time x s) = state s"
  "done_flag (with_start_time x s) = done_flag s"
  "t_count (with_start_time x s) = t_count s"
  "episode_rewards (with_start_time x s) = episode_rewards s"
  "epsilon (with_start_time x s) = epsilon s"
  "alpha (with_start_time x s) = alpha s"
  "gamma (with_start_time x s) = gamma s"
  "state_action_visits (stats_of (with_start_time x s)) = state_action_visits (stats_of s)"
  by (simp_all add: with_start_time_def)

lemma with_start_time_twice: "with_start_time y (with_start_time x s) = with_start_time y s"
  by (simp add: with_start_time_def)

lemma with_start_time_same: "with_start_time (start_time (stats_of s)) s = s"
  by (simp add: with_start_time_def)

lemma loop_body_start_time:
  "loop_body X A se ep (with_start_time x s) = map_sum id (with_start_time x) (loop_body X A se ep s)"
  by (auto simp: loop_body_def with_start_time_def Let_def split: prod.splits sum.splits)

lemma step_loop_start_time_Some:
  "step_loop X A se ep s = Some r \<Longrightarrow>
   step_loop X A se ep (with_start_time x s) = Some (map_sum id (with_start_time x) r)"
  by (rule step_loop_simulation) (simp_all add: loop_body_start_time with_start_time_simps)

lemma step_loop_start_time:
  "step_loop X A se ep (with_start_time x s)
     = map_option (map_sum id (with_start_time x)) (step_loop X A se ep s)"
proof (cases "step_loop X A se ep s")
  case (Some r)
  then show ?thesis by (simp add: step_loop_start_time_Some)
next
  case None
  have "step_loop X A se ep (with_start_time x s) = None"
  proof (rule ccontr)
    assume "step_loop X A se ep (with_start_time x s) \<noteq> None"
    then obtain r where "step_loop X A se ep (with_start_time x s) = Some r" by blast
    from step_loop_start_time_Some [OF this, of "start_time (stats_of s)"]
    have "step_loop X A se ep s \<noteq> None"
      by (simp add: with_start_time_twice with_start_time_same)
    with None show False by simp
  qed
  with None show ?thesis by simp
qed

lemma begin_episode_start_time:
  "begin_episode X A (with_start_time x s) = with_start_time x (begin_episode X A s)"
  by (simp add: begin_episode_def with_start_time_def Let_def split: prod.splits)

lemma end_episode_start_time:
  "end_episode X ep (with_start_time x s) = map_sum id (with_start_time x) (end_episode X ep s)"
  by (simp add: end_episode_def with_start_time_def Let_def split: list.splits)

lemma run_episode_start_time:
  "run_episode X A se ep (with_start_time x s)
     = map_option (map_sum id (with_start_time x)) (run_episode X A se ep s)"
  by (simp add: run_episode_def begin_episode_start_time step_loop_start_time
        end_episode_start_time split: option.splits sum.splits)

lemma main_loop_start_time:
  "main_loop X A se eps (with_start_time x s)
     = map_option (map_sum id (with_start_time x)) (main_loop X A se eps s)"
proof (induction eps arbitrary: s)
  case Nil
  show ?case by simp
next
  case (Cons ep eps)
  show ?case
    by (simp add: run_episode_start_time Cons.IH split: option.splits sum.splits)
qed

lemma initial_state_clock:
  "initial_state X A clk q w = with_start_time (now_strftime clk) (initial_state X A clk' q w)"
  by (simp add: initial_state_def init_stats_def with_start_time_def Let_def)

lemma train_clock: "forget_clock (train X A clk q w) = forget_clock (train X A clk' q w)"
proof -
  have "main_loop X A se eps (initial_state X A clk q w)
      = map_option (map_sum id (with_start_time (now_strftime clk)))
          (main_loop X A se eps (initial_state X A clk' q w))" for se eps
    by (subst initial_state_clock [of X A clk q w clk']) (rule main_loop_start_time)
  then show ?thesis
    by (simp add: train_def forget_clock_def with_start_time_def Let_def
          split: option.splits sum.splits prod.splits)
qed

lemma learn_clock:
  "forget_clock (learn X A clk (w\<lparr>rng := g\<rparr>)) = forget_clock (learn X A clk' (w\<lparr>rng := g'\<rparr>))"
proof (cases "setup_q_values X A (env w)")
  case (Inl err)
  then show ?thesis by (simp add: learn_def forget_clock_def Let_def)
next
  case (Inr q)
  then show ?thesis by (simp add: learn_def Let_def train_clock [of X A clk q _ clk'])
qed

subsection \<open>The run on a validated table never reads the action count\<close>

lemma loop_body_action_space_n:
  "loop_body (X\<lparr>action_space_n := n\<rparr>) A se ep s = loop_body X A se ep s"
  by (auto simp: loop_body_def select_action_def Let_def split: prod.splits sum.splits)

lemma step_loop_action_space_n_Some:
  "step_loop X A se ep s = Some r \<Longrightarrow> step_loop (X\<lparr>action_space_n := n\<rparr>) A se ep s = Some r"
  using step_loop_simulation [where f = id and X' = "X\<lparr>action_space_n := n\<rparr>" and A' = A and X = X and A = A]
  by (simp add: loop_body_action_space_n sum.map_id)

lemma step_loop_action_space_n:
  "step_loop (X\<lparr>action_space_n := n\<rparr>) A se ep s = step_loop X A se ep s"
proof (cases "step_loop X A se ep s")
  case (Some r)
  then show ?thesis by (simp add: step_loop_action_space_n_Some)
next
  case None
  have "step_loop (X\<lparr>action_space_n := n\<rparr>) A se ep s = None"
  proof (rule ccontr)
    assume "step_loop (X\<lparr>action_space_n := n\<rparr>) A se ep s \<noteq> None"
    then obtain r where "step_loop (X\<lparr>action_space_n := n\<rparr>) A se ep s = Some r" by blast
    from step_loop_action_space_n_Some [OF this, of "action_space_n X"]
    have "step_loop X A se ep s \<noteq> None" by simp
    with None show False by simp
  qed
  with None show ?thesis by simp
qed

lemma begin_episode_action_space_n:
  "begin_episode (X\<lparr>action_space_n := n\<rparr>) A s = begin_episode X A s"
  by (simp add: begin_episode_def)

lemma end_episode_action_space_n:
  "end_episode (X\<lparr>action_space_n := n\<rparr>) ep s = end_episode X ep s"
  by (simp add: end_episode_def Let_def split: list.splits)

lemma main_loop_action_space_n:
  "main_loop (X\<lparr>action_space_n := n\<rparr>) A se eps s = main_loop X A se eps s"
proof (induction eps arbitrary: s)
  case Nil
  show ?case by simp
next
  case (Cons ep eps)
  have "run_episode (X\<lparr>action_space_n := n\<rparr>) A se ep s = run_episode X A se ep s" for s
    by (simp add: run_episode_def begin_episode_action_space_n end_episode_action_space_n
          step_loop_action_space_n split: option.splits sum.splits)
  with Cons.IH show ?case by (simp split: option.splits sum.splits)
qed

lemma train_action_space_n:
  "train (X\<lparr>action_space_n := n\<rparr>) A clk q w = train X A clk q w"
  by (simp add: train_def initial_state_def init_stats_def main_loop_action_space_n)

subsection \<open>The stub, evaluated\<close>

lemma upt_0_2: "[0..<2] = [0, Suc 0]"
  by (simp add: upt_rec)

lemma getrow_stub: "getrow stub_table [0] = Inr [2, 0]"
  by (simp add: getrow_def stub_table_def valid_index_def upt_0_2)

lemma stub_state_eq:
  "stub_state dn =
     \<lparr>world_of = \<lparr>rng = 0, env = 0\<rparr>, q_values = stub_table,
      stats_of = init_stats (stub_env dn) stub_args stub_clock stub_table 0,
      state = [0], done_flag = False, t_count = 0, episode_rewards = [],
      epsilon = 1, alpha = 1 / 10, gamma = 9 / 10\<rparr>"
  by (simp add: stub_state_def begin_episode_def initial_state_def Let_def stub_env_def stub_args_def stub_world_def)

lemma select_stub:
  "select_action (stub_env dn) stub_table [0] a 0 \<lparr>rng = g, env = n\<rparr> = (Inr 0, \<lparr>rng = Suc g, env = n\<rparr>)"
  by (simp add: select_action_def getrow_stub np_argmax_def stub_env_def)

lemma stub_draw: "np_random_random (stub_env dn) g = (1 / 2, Suc g)"
  by (simp add: stub_env_def)

lemma stub_sample: "action_space_sample (stub_env dn) w = (1, w)"
  by (simp add: stub_env_def)

lemma stub_step: "loop_body (stub_env dn) stub_args 0 0 (stub_state dn) = Inr (stub_next dn)"
  apply (simp add: loop_body_def stub_next_def stub_state_eq select_stub Let_def)
  apply (simp add: stub_env_def stub_args_def init_stats_def getrow_stub np_amax_def inc_item_def np_zeros_def getitem_def setitem_def valid_index_def Let_def)
  apply (simp add: stub_table_def new_q_def q_terminal_def q_non_terminal_def truthy_def)
  done

lemma stub_next_done: "done_flag (stub_next dn) = dn"
  by (simp add: stub_next_def)

lemma stub_state_not_done: "\<not> done_flag (stub_state dn)"
  by (simp add: stub_state_eq)

lemma stub_step_loop:
  "step_loop (stub_env dn) stub_args 0 0 (stub_state dn) = Some (Inr (stub_next dn))"
proof -
  have "length_reached (max_episode_length stub_args) (t_count (stub_next dn))"
    by (simp add: length_reached_def stub_args_def stub_next_def)
  then show ?thesis
    by (subst step_loop.simps) (simp add: stub_state_not_done stub_step)
qed

lemma stub_initial_state:
  "begin_episode (stub_env dn) stub_args
     (initial_state (stub_env dn) stub_args stub_clock stub_table \<lparr>rng = 0, env = 0\<rparr>)
   = stub_state dn"
  by (simp add: stub_state_def stub_world_def)

lemma stub_main_loop:
  "main_loop (stub_env dn) stub_args 0 [0]
     (initial_state (stub_env dn) stub_args clk stub_table \<lparr>rng = 0, env = 0\<rparr>)
   = map_option (map_sum id (with_start_time (now_strftime clk)))
       (Some (end_episode (stub_env dn) 0 (stub_next dn)))"
proof -
  have "main_loop (stub_env dn) stub_args 0 [0]
     (initial_state (stub_env dn) stub_args stub_clock stub_table \<lparr>rng = 0, env = 0\<rparr>)
     = Some (end_episode (stub_env dn) 0 (stub_next dn))"
    by (simp add: run_episode_def stub_initial_state stub_step_loop split: sum.splits)
  then show ?thesis
    by (subst initial_state_clock [of _ _ clk _ _ stub_clock]) (simp only: main_loop_start_time)
qed

lemma stub_main_loop_last:
  "main_loop (stub_env dn) stub_args 0 [0]
     (initial_state (stub_env dn) stub_args stub_clock stub_table \<lparr>rng = 0, env = 0\<rparr>)
   = Some (Inr (stub_last dn))"
  apply (simp add: stub_main_loop del: main_loop.simps)
  apply (simp add: end_episode_def stub_next_def stub_state_eq Let_def init_stats_def with_start_time_def)
  apply (simp add: stub_last_def stub_next_def stub_state_eq stub_final_stats_def stub_env_def
           stub_args_def stub_clock_def init_stats_def np_zeros_def stub_table_def)
  done

lemma stub_train:
  "train (stub_env dn) stub_args clk stub_table \<lparr>rng = 0, env = 0\<rparr> = stub_result clk"
proof -
  have upt: "[0..<max_episodes stub_args] = [0]"
    by (simp add: stub_args_def)
  have se: "start_episode stub_args = Some 0"
    by (simp add: stub_args_def)
  show ?thesis
    apply (simp add: train_def upt se stub_main_loop Let_def del: main_loop.simps)
    apply (simp add: end_episode_def stub_next_def stub_state_eq Let_def init_stats_def with_start_time_def)
    apply (simp add: stub_result_def stub_final_stats_def stub_env_def stub_args_def stub_clock_def
             stub_table_def np_zeros_def)
    done
qed

lemma stub_learn: "learn (stub_env dn) stub_args clk stub_world = stub_result clk"
proof -
  have "setup_q_values (stub_env dn) stub_args e = Inr stub_table" for e
    by (simp add: setup_q_values_def stub_args_def stub_table_def)
  moreover have "stub_world\<lparr>rng := np_random_seed (stub_env dn) (seed stub_args)\<rparr> = \<lparr>rng = 0, env = 0\<rparr>"
    by (simp add: stub_world_def stub_env_def)
  ultimately show ?thesis
    by (simp add: learn_def Let_def stub_train)
qed

lemma stub_updated_pair: "updated_pair (stub_env dn) (stub_state dn) = Some [0, 0]"
  by (simp add: updated_pair_def stub_state_eq select_stub)

lemma stub_end_episode: "end_episode (stub_env dn) 0 (stub_next dn) = Inr (stub_last dn)"
  apply (simp add: end_episode_def stub_next_def stub_state_eq Let_def init_stats_def)
  apply (simp add: stub_last_def stub_next_def stub_state_eq stub_final_stats_def stub_env_def
           stub_args_def stub_clock_def init_stats_def np_zeros_def stub_table_def)
  done

lemma stub_passes:
  "main_loop_passes (stub_env dn) stub_args 0 [0]
     (initial_state (stub_env dn) stub_args stub_clock stub_table \<lparr>rng = 0, env = 0\<rparr>)
     [[0, 0]] (stub_last dn)"
proof -
  have len: "length_reached (max_episode_length stub_args) (t_count (stub_next dn))"
    by (simp add: length_reached_def stub_args_def stub_next_def)
  have "step_loop_passes (stub_env dn) stub_args 0 0 (stub_state dn) [[0, 0]] (stub_next dn)"
    by (rule step_loop_passes.last_pass [OF stub_state_not_done stub_step stub_updated_pair len])
  then have "step_loop_passes (stub_env dn) stub_args 0 0
      (begin_episode (stub_env dn) stub_args
         (initial_state (stub_env dn) stub_args stub_clock stub_table \<lparr>rng = 0, env = 0\<rparr>))
      [[0, 0]] (stub_next dn)"
    by (simp only: stub_initial_state)
  from main_loop_passes.one_episode [OF this stub_end_episode main_loop_passes.no_episode]
  show ?thesis by simp
qed

section \<open>The claims\<close>

text \<open>
  C1. Claimed: every step of the training loop selects its action epsilon-greedily with
  the current epsilon. The call of line 131 binds the current epsilon to the parameter
  \<^verbatim>\<open>env\<close> and leaves the exploration rate at its default \<open>0\<close>. At the stub state the
  current epsilon is \<open>1\<close> and the draw is \<open>1/2\<close>: the call with the intended binding
  returns the sampled action \<open>1\<close>, the call of \<^verbatim>\<open>learn\<close> returns the greedy action \<open>0\<close>,
  and the pass through the loop body counts a visit of action \<open>0\<close>, none of action \<open>1\<close>.
\<close>

theorem learn_step_never_explores:
  "get_epsilon stub_args 0 1 = 1
   \<and> epsilon (stub_state True) = 1
   \<and> fst (np_random_random (stub_env True) (rng (world_of (stub_state True)))) < epsilon (stub_state True)
   \<and> fst (action_space_sample (stub_env True) (world_of (stub_state True))) = 1
   \<and> select_action (stub_env True) (q_values (stub_state True)) (state (stub_state True))
        EnvObject (epsilon (stub_state True)) (world_of (stub_state True))
       = (Inr 1, \<lparr>rng = 1, env = 0\<rparr>)
   \<and> select_action (stub_env True) (q_values (stub_state True)) (state (stub_state True))
        (PyFloat (epsilon (stub_state True))) 0 (world_of (stub_state True))
       = (Inr 0, \<lparr>rng = 1, env = 0\<rparr>)
   \<and> loop_body (stub_env True) stub_args 0 0 (stub_state True) = Inr (stub_next True)
   \<and> cells (state_action_visits (stats_of (stub_next True))) [0, 0] = 1
   \<and> cells (state_action_visits (stats_of (stub_next True))) [0, 1] = 0"
proof -
  have "select_action (stub_env True) stub_table [0] EnvObject 1 \<lparr>rng = 0, env = 0\<rparr>
       = (Inr 1, \<lparr>rng = 1, env = 0\<rparr>)"
    by (simp add: select_action_def stub_draw stub_sample)
  then show ?thesis
    using stub_step [of True] select_stub [of True "PyFloat 1" 0 0]
    by (simp add: stub_state_eq stub_draw stub_sample stub_args_def stub_next_def)
qed

text \<open>
  C2. Claimed: every scalar \<^verbatim>\<open>fictitious_terminal_val\<close> that is set, \<open>0\<close> included,
  enters the terminal target. The source tests the truth value of the parameter, so
  the value \<open>0\<close> is treated as not set: in SBE mode with reward \<open>1\<close> and gamma \<open>1/2\<close>
  the terminal target is the reward \<open>1\<close>, where the formula of the claim gives \<open>1/2\<close>.
  In the stub run (value \<open>0\<close> set, gamma \<open>0.9\<close>, learning rate \<open>0.1\<close>, old entry \<open>2\<close>,
  reward \<open>1\<close>, terminal step) the entry becomes \<open>1.9\<close>; with the formula of the claim
  it would become \<open>1.81\<close>.
\<close>

theorem zero_fictitious_terminal_val_is_ignored:
  "q_terminal True (Some 0) (1 / 2) 1 = 1
   \<and> (1 - 1 / 2) * 1 + (1 / 2) * min 1 0 = (1 / 2 :: real)
   \<and> new_q True (q_terminal True (Some 0) (1 / 2) 1) (q_non_terminal True (1 / 2) 1 3) = 1
   \<and> q_terminal True None (1 / 2) 1 = 1
   \<and> use_sbe stub_args \<and> fictitious_terminal_val stub_args = Some 0
   \<and> loop_body (stub_env True) stub_args 0 0 (stub_state True) = Inr (stub_next True)
   \<and> done_flag (stub_next True)
   \<and> cells (q_values (stub_state True)) [0, 0] = 2
   \<and> cells (q_values (stub_next True)) [0, 0] = 19 / 10
   \<and> (1 - 1 / 10) * 2 + (1 / 10) * ((1 - 9 / 10) * 1 + (9 / 10) * min 1 0) = (181 / 100 :: real)"
  using stub_step [of True]
  by (simp add: q_terminal_def truthy_def new_q_def stub_args_def stub_next_def stub_state_eq
        stub_table_def)

text \<open>
  C3, as amended. Two runs with the same seed, the same arguments and the same
  deterministic collaborators agree in whether they return, in the error or the value
  table they return, in the final generator and environment, and in every statistic
  except \<^verbatim>\<open>start_time\<close> and \<^verbatim>\<open>time_elapsed\<close>, whatever the clock reads and whatever state
  the generator was in before it was seeded.
\<close>

theorem same_seed_same_run_up_to_clock:
  "forget_clock (learn X A clk (w\<lparr>rng := g\<rparr>)) = forget_clock (learn X A clk' (w\<lparr>rng := g'\<rparr>))"
  by (rule learn_clock)

theorem same_seed_same_run_up_to_clock_witness:
  "forget_clock (learn (stub_env True) stub_args stub_clock (stub_world\<lparr>rng := 3\<rparr>))
     = forget_clock (learn (stub_env True) stub_args stub_clock_later (stub_world\<lparr>rng := 5\<rparr>))
   \<and> forget_clock (learn (stub_env True) stub_args stub_clock stub_world)
     = Some (Inr (stub_table\<lparr>cells := (cells stub_table)([0, 0] := 19 / 10)\<rparr>,
                  (stub_final_stats stub_clock)\<lparr>start_time := [], time_elapsed := None\<rparr>),
             \<lparr>rng = 1, env = 1\<rparr>)"
  using same_seed_same_run_up_to_clock [where X = "stub_env True" and A = stub_args and clk = stub_clock
      and w = stub_world and g = 3 and clk' = stub_clock_later and g' = 5]
  by (simp add: stub_learn stub_result_def forget_clock_def)

text \<open>
  C3, as claimed (identical statistics), fails: the stub run under two clock readings
  returns statistics that differ in \<^verbatim>\<open>start_time\<close> and \<^verbatim>\<open>time_elapsed\<close>.
\<close>

theorem statistics_depend_on_clock:
  "learn (stub_env True) stub_args stub_clock stub_world = stub_result stub_clock
   \<and> learn (stub_env True) stub_args stub_clock_later stub_world = stub_result stub_clock_later
   \<and> stub_result stub_clock \<noteq> stub_result stub_clock_later"
  by (simp add: stub_learn) (simp add: stub_result_def stub_final_stats_def stub_clock_def stub_clock_later_def)



text \<open>
  C5. Every pass through the loop body writes
  \<open>(1 - alpha) * old + alpha * target\<close> into the cell of the current state and the
  selected action and changes no other cell; the target is the terminal one if the step
  reported \<^verbatim>\<open>done\<close> and the non-terminal one otherwise, and its next-state maximum is
  taken from the row of the table as it was before the write, also when the next state
  is the current one (as in the stub).
\<close>

theorem update_rule_reads_old_table:
  assumes "loop_body X A se ep s = Inr s'"
  shows "\<exists>a row.
     fst (select_action X (q_values s) (state s) (PyFloat (epsilon s)) 0 (world_of s)) = Inr a \<and>
     getrow (q_values s) (state s') = Inr row \<and> row \<noteq> [] \<and>
     cells (q_values s') (state s @ [a]) =
       (1 - alpha s') * cells (q_values s) (state s @ [a])
       + alpha s' *
           (if done_flag s'
            then q_terminal (use_sbe A) (fictitious_terminal_val A) (gamma s')
                   (last (episode_rewards s'))
            else q_non_terminal (use_sbe A) (gamma s') (last (episode_rewards s'))
                   (Max (set row))) \<and>
     (\<forall>idx. idx \<noteq> state s @ [a] \<longrightarrow> cells (q_values s') idx = cells (q_values s) idx)"
proof -
  from loop_body_update [OF assms] obtain a w1 row where
    sel: "select_action X (q_values s) (state s) (PyFloat (epsilon s)) 0 (world_of s) = (Inr a, w1)"
    and rest: "getrow (q_values s) (state s') = Inr row" "row \<noteq> []"
    "cells (q_values s') (state s @ [a]) =
       (1 - alpha s') * cells (q_values s) (state s @ [a])
       + alpha s' *
           (if done_flag s'
            then q_terminal (use_sbe A) (fictitious_terminal_val A) (gamma s')
                   (last (episode_rewards s'))
            else q_non_terminal (use_sbe A) (gamma s') (last (episode_rewards s'))
                   (Max (set row)))"
    "\<forall>idx. idx \<noteq> state s @ [a] \<longrightarrow> cells (q_values s') idx = cells (q_values s) idx"
    by blast
  from sel have "fst (select_action X (q_values s) (state s) (PyFloat (epsilon s)) 0 (world_of s)) = Inr a"
    by simp
  with rest show ?thesis by blast
qed

theorem update_rule_reads_old_table_witness:
  "loop_body (stub_env True) stub_args 0 0 (stub_state True) = Inr (stub_next True)
   \<and> state (stub_next True) = state (stub_state True)
   \<and> (\<exists>a row.
     fst (select_action (stub_env True) (q_values (stub_state True)) (state (stub_state True))
            (PyFloat (epsilon (stub_state True))) 0 (world_of (stub_state True))) = Inr a \<and>
     getrow (q_values (stub_state True)) (state (stub_next True)) = Inr row \<and> row \<noteq> [] \<and>
     cells (q_values (stub_next True)) (state (stub_state True) @ [a]) =
       (1 - alpha (stub_next True)) * cells (q_values (stub_state True)) (state (stub_state True) @ [a])
       + alpha (stub_next True) *
           (if done_flag (stub_next True)
            then q_terminal (use_sbe stub_args) (fictitious_terminal_val stub_args) (gamma (stub_next True))
                   (last (episode_rewards (stub_next True)))
            else q_non_terminal (use_sbe stub_args) (gamma (stub_next True))
                   (last (episode_rewards (stub_next True))) (Max (set row))) \<and>
     (\<forall>idx. idx \<noteq> state (stub_state True) @ [a] \<longrightarrow>
        cells (q_values (stub_next True)) idx = cells (q_values (stub_state True)) idx))"
proof -
  have h: "loop_body (stub_env True) stub_args 0 0 (stub_state True) = Inr (stub_next True)"
    by (rule stub_step)
  have same: "state (stub_next True) = state (stub_state True)"
    by (simp add: stub_next_def stub_state_eq)
  from update_rule_reads_old_table [OF h] h same show ?thesis by blast
qed

text \<open>
  C6. The flag that chooses between the two targets is the one the environment
  returned for this step; the step count and \<^verbatim>\<open>max_episode_length\<close> play no part in
  it. A step that reports \<^verbatim>\<open>done\<close> ends the episode, so every earlier step of an episode
  was backed up with the non-terminal target. A step that does not report \<^verbatim>\<open>done\<close> but
  reaches \<^verbatim>\<open>max_episode_length\<close> ends the episode as well, and its backup is the
  non-terminal one. Otherwise the loop goes on.
\<close>

theorem truncation_is_not_terminal:
  assumes "\<not> done_flag s" and "loop_body X A se ep s = Inr s'"
  shows "\<exists>a w1 row.
     select_action X (q_values s) (state s) (PyFloat (epsilon s)) 0 (world_of s) = (Inr a, w1) \<and>
     done_flag s' = snd (snd (fst (env_step X a (env w1)))) \<and>
     getrow (q_values s) (state s') = Inr row \<and>
     cells (q_values s') (state s @ [a]) =
       (1 - alpha s') * cells (q_values s) (state s @ [a])
       + alpha s' *
           (if done_flag s'
            then q_terminal (use_sbe A) (fictitious_terminal_val A) (gamma s')
                   (last (episode_rewards s'))
            else q_non_terminal (use_sbe A) (gamma s') (last (episode_rewards s'))
                   (Max (set row))) \<and>
     (done_flag s' \<longrightarrow> step_loop X A se ep s = Some (Inr s')) \<and>
     (\<not> done_flag s' \<longrightarrow> length_reached (max_episode_length A) (t_count s') \<longrightarrow>
        step_loop X A se ep s = Some (Inr s') \<and>
        cells (q_values s') (state s @ [a]) =
          (1 - alpha s') * cells (q_values s) (state s @ [a])
          + alpha s' * q_non_terminal (use_sbe A) (gamma s') (last (episode_rewards s'))
                         (Max (set row))) \<and>
     (\<not> done_flag s' \<longrightarrow> \<not> length_reached (max_episode_length A) (t_count s') \<longrightarrow>
        step_loop X A se ep s = step_loop X A se ep s')"
proof -
  from loop_body_update [OF assms(2)] obtain a w1 row where
    facts: "select_action X (q_values s) (state s) (PyFloat (epsilon s)) 0 (world_of s) = (Inr a, w1)"
    "done_flag s' = snd (snd (fst (env_step X a (env w1))))"
    "getrow (q_values s) (state s') = Inr row"
    "cells (q_values s') (state s @ [a]) =
       (1 - alpha s') * cells (q_values s) (state s @ [a])
       + alpha s' *
           (if done_flag s'
            then q_terminal (use_sbe A) (fictitious_terminal_val A) (gamma s')
                   (last (episode_rewards s'))
            else q_non_terminal (use_sbe A) (gamma s') (last (episode_rewards s'))
                   (Max (set row)))"
    by blast
  have unfold: "step_loop X A se ep s =
      (if length_reached (max_episode_length A) (t_count s') then Some (Inr s')
       else step_loop X A se ep s')"
    using assms by (subst step_loop.simps) simp
  have stop: "done_flag s' \<Longrightarrow> step_loop X A se ep s' = Some (Inr s')"
    by (subst step_loop.simps) simp
  have a: "done_flag s' \<longrightarrow> step_loop X A se ep s = Some (Inr s')"
    using unfold stop by simp
  have b: "\<not> done_flag s' \<longrightarrow> length_reached (max_episode_length A) (t_count s') \<longrightarrow>
        step_loop X A se ep s = Some (Inr s') \<and>
        cells (q_values s') (state s @ [a]) =
          (1 - alpha s') * cells (q_values s) (state s @ [a])
          + alpha s' * q_non_terminal (use_sbe A) (gamma s') (last (episode_rewards s'))
                         (Max (set row))"
    using unfold facts(4) by simp
  have c: "\<not> done_flag s' \<longrightarrow> \<not> length_reached (max_episode_length A) (t_count s') \<longrightarrow>
        step_loop X A se ep s = step_loop X A se ep s'"
    using unfold by simp
  from facts a b c show ?thesis by blast
qed

theorem truncation_is_not_terminal_witness:
  "(\<not> done_flag (stub_state False)
    \<and> loop_body (stub_env False) stub_args 0 0 (stub_state False) = Inr (stub_next False)
    \<and> \<not> done_flag (stub_next False)
    \<and> length_reached (max_episode_length stub_args) (t_count (stub_next False))
    \<and> step_loop (stub_env False) stub_args 0 0 (stub_state False) = Some (Inr (stub_next False)))
   \<and> (done_flag (stub_next True)
    \<and> step_loop (stub_env True) stub_args 0 0 (stub_state True) = Some (Inr (stub_next True)))
   \<and> (\<not> length_reached (max_episode_length (stub_args\<lparr>max_episode_length := None\<rparr>))
          (t_count (stub_next False))
    \<and> step_loop (stub_env False) (stub_args\<lparr>max_episode_length := None\<rparr>) 0 0 (stub_state False)
        = step_loop (stub_env False) (stub_args\<lparr>max_episode_length := None\<rparr>) 0 0 (stub_next False))"
proof -
  have nd: "\<not> done_flag (stub_state dn)" for dn by (rule stub_state_not_done)
  have len: "length_reached (max_episode_length stub_args) (t_count (stub_next False))"
    by (simp add: length_reached_def stub_args_def stub_next_def)
  have nolen: "\<not> length_reached (max_episode_length (stub_args\<lparr>max_episode_length := None\<rparr>))
          (t_count (stub_next False))"
    by (simp add: length_reached_def)
  have body': "loop_body (stub_env False) (stub_args\<lparr>max_episode_length := None\<rparr>) 0 0 (stub_state False)
      = Inr (stub_next False)"
    by (simp add: loop_body_max_episode_length stub_step)
  from truncation_is_not_terminal [OF nd stub_step, of False] len
  have p1: "step_loop (stub_env False) stub_args 0 0 (stub_state False) = Some (Inr (stub_next False))"
    by (auto simp: stub_next_done)
  from truncation_is_not_terminal [OF nd stub_step, of True]
  have p2: "step_loop (stub_env True) stub_args 0 0 (stub_state True) = Some (Inr (stub_next True))"
    by (auto simp: stub_next_done)
  from truncation_is_not_terminal [OF nd body'] nolen
  have p3: "step_loop (stub_env False) (stub_args\<lparr>max_episode_length := None\<rparr>) 0 0 (stub_state False)
        = step_loop (stub_env False) (stub_args\<lparr>max_episode_length := None\<rparr>) 0 0 (stub_next False)"
    by (auto simp: stub_next_done)
  from nd [of False] stub_step [of False] len nolen p1 p2 p3 show ?thesis
    by (simp add: stub_next_done)
qed

text \<open>
  C7. If \<^verbatim>\<open>start_episode\<close> is given without a warm-start table, or the warm-start
  table's shape without its last axis differs from \<^verbatim>\<open>buckets\<close>, then \<^verbatim>\<open>learn\<close> returns a
  \<^verbatim>\<open>ValueError\<close>: it does return, the environment is as it was (no reset, no step, no
  discretization set), only the generator has been seeded, and neither a table nor
  statistics come back.
\<close>

theorem config_errors_fail_fast:
  assumes "(q_values_arg A = None \<and> start_episode A \<noteq> None)
           \<or> (\<exists>q. q_values_arg A = Some q \<and> butlast (shape q) \<noteq> buckets A)"
  shows "\<exists>msg. learn X A clk w = Some (Inl (ValueError msg), w\<lparr>rng := np_random_seed X (seed A)\<rparr>)"
  using assms by (auto simp: learn_def setup_q_values_def Let_def)

theorem config_errors_fail_fast_witness:
  "(q_values_arg (stub_args\<lparr>q_values_arg := None\<rparr>) = None
    \<and> start_episode (stub_args\<lparr>q_values_arg := None\<rparr>) \<noteq> None
    \<and> (\<exists>msg. learn (stub_env True) (stub_args\<lparr>q_values_arg := None\<rparr>) stub_clock stub_world
          = Some (Inl (ValueError msg), \<lparr>rng = 0, env = 0\<rparr>)))
   \<and> (q_values_arg (stub_args\<lparr>buckets := [2]\<rparr>) = Some stub_table
    \<and> butlast (shape stub_table) \<noteq> buckets (stub_args\<lparr>buckets := [2]\<rparr>)
    \<and> (\<exists>msg. learn (stub_env True) (stub_args\<lparr>buckets := [2]\<rparr>) stub_clock stub_world
          = Some (Inl (ValueError msg), \<lparr>rng = 0, env = 0\<rparr>)))"
proof -
  have a: "q_values_arg (stub_args\<lparr>q_values_arg := None\<rparr>) = None
      \<and> start_episode (stub_args\<lparr>q_values_arg := None\<rparr>) \<noteq> None"
    by (simp add: stub_args_def)
  have b: "q_values_arg (stub_args\<lparr>buckets := [2]\<rparr>) = Some stub_table
      \<and> butlast (shape stub_table) \<noteq> buckets (stub_args\<lparr>buckets := [2]\<rparr>)"
    by (simp add: stub_args_def stub_table_def)
  have w: "stub_world\<lparr>rng := np_random_seed (stub_env True) sd\<rparr> = \<lparr>rng = 0, env = 0\<rparr>" for sd
    by (simp add: stub_world_def stub_env_def)
  from a have "\<exists>msg. learn (stub_env True) (stub_args\<lparr>q_values_arg := None\<rparr>) stub_clock stub_world
          = Some (Inl (ValueError msg), \<lparr>rng = 0, env = 0\<rparr>)"
    using config_errors_fail_fast [of "stub_args\<lparr>q_values_arg := None\<rparr>" "stub_env True" stub_clock stub_world]
    by (simp add: w)
  moreover from b have "\<exists>msg. learn (stub_env True) (stub_args\<lparr>buckets := [2]\<rparr>) stub_clock stub_world
          = Some (Inl (ValueError msg), \<lparr>rng = 0, env = 0\<rparr>)"
    using config_errors_fail_fast [of "stub_args\<lparr>buckets := [2]\<rparr>" "stub_env True" stub_clock stub_world]
    by (simp add: w)
  ultimately show ?thesis using a b by blast
qed

text \<open>
  C8. Every pass through the loop body adds exactly one to the visit count of the pair
  it updates and leaves every other visit count, and every other value, as it was.
  An episode loop that returns has a unique list of passes; it changes the count of every
  pair by the number of times the pair occurs in that list, whatever other pairs are
  interleaved, and so never decreases a count. The counts are all zero when the episode
  loop of \<^verbatim>\<open>learn\<close> starts, and the count that \<^verbatim>\<open>learn\<close> returns for a pair is the number
  of passes of the run at that pair.
\<close>

theorem visit_counts_count_updates:
  "(loop_body X A se ep s = Inr s' \<longrightarrow>
      (\<exists>p. updated_pair X s = Some p
         \<and> cells (state_action_visits (stats_of s')) p
             = cells (state_action_visits (stats_of s)) p + 1
         \<and> (\<forall>idx. idx \<noteq> p \<longrightarrow>
               cells (state_action_visits (stats_of s')) idx
                 = cells (state_action_visits (stats_of s)) idx
               \<and> cells (q_values s') idx = cells (q_values s) idx)))
   \<and> (main_loop X A se eps s0 = Some (Inr sN) \<longrightarrow>
        (\<exists>ps. main_loop_passes X A se eps s0 ps sN
           \<and> (\<forall>qs sM. main_loop_passes X A se eps s0 qs sM \<longrightarrow> qs = ps \<and> sM = sN)
           \<and> (\<forall>idx. cells (state_action_visits (stats_of sN)) idx
                  = cells (state_action_visits (stats_of s0)) idx + real (count_list ps idx))
           \<and> (\<forall>idx. cells (state_action_visits (stats_of s0)) idx
                  \<le> cells (state_action_visits (stats_of sN)) idx)))
   \<and> (learn X A clk w = Some (Inr (q, st), w') \<longrightarrow>
        (\<exists>q0 sf ps.
            setup_q_values X A (env w) = Inr q0
          \<and> main_loop_passes X A (case start_episode A of None \<Rightarrow> 0 | Some n \<Rightarrow> n)
               [0..<max_episodes A]
               (initial_state X A clk q0 (w\<lparr>rng := np_random_seed X (seed A)\<rparr>)) ps sf
          \<and> state_action_visits st = state_action_visits (stats_of sf)
          \<and> (\<forall>idx. cells (state_action_visits (stats_of
                  (initial_state X A clk q0 (w\<lparr>rng := np_random_seed X (seed A)\<rparr>)))) idx = 0)
          \<and> (\<forall>idx. cells (state_action_visits st) idx = real (count_list ps idx))))"
proof (intro conjI impI)
  assume body: "loop_body X A se ep s = Inr s'"
  from loop_body_updated_pair [OF body] obtain p where
    p: "updated_pair X s = Some p"
    and frame: "\<forall>idx. idx \<noteq> p \<longrightarrow> cells (q_values s') idx = cells (q_values s) idx"
    by blast
  have "cells (state_action_visits (stats_of s')) idx
     = cells (state_action_visits (stats_of s)) idx + (if idx = p then 1 else 0)" for idx
    by (rule pass_counts_one [OF body p])
  with p frame show "\<exists>p. updated_pair X s = Some p
         \<and> cells (state_action_visits (stats_of s')) p
             = cells (state_action_visits (stats_of s)) p + 1
         \<and> (\<forall>idx. idx \<noteq> p \<longrightarrow>
               cells (state_action_visits (stats_of s')) idx
                 = cells (state_action_visits (stats_of s)) idx
               \<and> cells (q_values s') idx = cells (q_values s) idx)"
    by (intro exI [of _ p]) simp
next
  assume ml: "main_loop X A se eps s0 = Some (Inr sN)"
  from main_loop_passes_complete [OF ml] obtain ps where
    ps: "main_loop_passes X A se eps s0 ps sN" by blast
  have uniq: "\<forall>qs sM. main_loop_passes X A se eps s0 qs sM \<longrightarrow> qs = ps \<and> sM = sN"
    using main_loop_passes_unique [OF ps] by blast
  have cnt: "\<forall>idx. cells (state_action_visits (stats_of sN)) idx
                  = cells (state_action_visits (stats_of s0)) idx + real (count_list ps idx)"
    using main_loop_passes_count [OF ps] by blast
  have mono: "\<forall>idx. cells (state_action_visits (stats_of s0)) idx
                  \<le> cells (state_action_visits (stats_of sN)) idx"
    using main_loop_visits_mono [OF ml] by blast
  from ps uniq cnt mono show "\<exists>ps. main_loop_passes X A se eps s0 ps sN
           \<and> (\<forall>qs sM. main_loop_passes X A se eps s0 qs sM \<longrightarrow> qs = ps \<and> sM = sN)
           \<and> (\<forall>idx. cells (state_action_visits (stats_of sN)) idx
                  = cells (state_action_visits (stats_of s0)) idx + real (count_list ps idx))
           \<and> (\<forall>idx. cells (state_action_visits (stats_of s0)) idx
                  \<le> cells (state_action_visits (stats_of sN)) idx)"
    by blast
next
  assume "learn X A clk w = Some (Inr (q, st), w')"
  then show "\<exists>q0 sf ps.
            setup_q_values X A (env w) = Inr q0
          \<and> main_loop_passes X A (case start_episode A of None \<Rightarrow> 0 | Some n \<Rightarrow> n)
               [0..<max_episodes A]
               (initial_state X A clk q0 (w\<lparr>rng := np_random_seed X (seed A)\<rparr>)) ps sf
          \<and> state_action_visits st = state_action_visits (stats_of sf)
          \<and> (\<forall>idx. cells (state_action_visits (stats_of
                  (initial_state X A clk q0 (w\<lparr>rng := np_random_seed X (seed A)\<rparr>)))) idx = 0)
          \<and> (\<forall>idx. cells (state_action_visits st) idx = real (count_list ps idx))"
    by (rule learn_passes)
qed

theorem visit_counts_count_updates_witness:
  "(loop_body (stub_env True) stub_args 0 0 (stub_state True) = Inr (stub_next True)
    \<and> updated_pair (stub_env True) (stub_state True) = Some [0, 0]
    \<and> cells (state_action_visits (stats_of (stub_next True))) [0, 0]
        = cells (state_action_visits (stats_of (stub_state True))) [0, 0] + 1)
   \<and> (main_loop (stub_env True) stub_args 0 [0]
         (initial_state (stub_env True) stub_args stub_clock stub_table \<lparr>rng = 0, env = 0\<rparr>)
         = Some (Inr (stub_last True))
      \<and> main_loop_passes (stub_env True) stub_args 0 [0]
         (initial_state (stub_env True) stub_args stub_clock stub_table \<lparr>rng = 0, env = 0\<rparr>)
         [[0, 0]] (stub_last True)
      \<and> cells (state_action_visits (stats_of (stub_last True))) [0, 0]
         = cells (state_action_visits (stats_of
             (initial_state (stub_env True) stub_args stub_clock stub_table \<lparr>rng = 0, env = 0\<rparr>))) [0, 0]
           + real (count_list [[0, 0]] [0, 0 :: nat]))
   \<and> (learn (stub_env True) stub_args stub_clock stub_world
         = Some (Inr (stub_table\<lparr>cells := (cells stub_table)([0, 0] := 19 / 10)\<rparr>,
                      stub_final_stats stub_clock), \<lparr>rng = 1, env = 1\<rparr>)
      \<and> cells (state_action_visits (stub_final_stats stub_clock)) [0, 0]
           = real (count_list [[0, 0]] [0, 0 :: nat])
      \<and> cells (state_action_visits (stub_final_stats stub_clock)) [0, 1]
           = real (count_list [[0, 0]] [0, 1 :: nat]))"
proof -
  let ?X = "stub_env True"
  let ?init = "initial_state ?X stub_args stub_clock stub_table \<lparr>rng = 0, env = 0\<rparr>"
  have body: "loop_body ?X stub_args 0 0 (stub_state True) = Inr (stub_next True)"
    by (rule stub_step)
  have ml: "main_loop ?X stub_args 0 [0] ?init = Some (Inr (stub_last True))"
    by (rule stub_main_loop_last)
  have run: "learn ?X stub_args stub_clock stub_world
         = Some (Inr (stub_table\<lparr>cells := (cells stub_table)([0, 0] := 19 / 10)\<rparr>,
                      stub_final_stats stub_clock), \<lparr>rng = 1, env = 1\<rparr>)"
    by (simp add: stub_learn stub_result_def)
  have w1: "stub_world\<lparr>rng := np_random_seed ?X (seed stub_args)\<rparr> = \<lparr>rng = 0, env = 0\<rparr>"
    by (simp add: stub_world_def stub_env_def)
  have stp: "setup_q_values ?X stub_args e = Inr stub_table" for e
    by (simp add: setup_q_values_def stub_args_def stub_table_def)
  have se: "(case start_episode stub_args of None \<Rightarrow> 0 | Some n \<Rightarrow> n) = 0"
    by (simp add: stub_args_def)
  have eps: "[0..<max_episodes stub_args] = [0]"
    by (simp add: stub_args_def)
  note inst = visit_counts_count_updates [where X = ?X and A = stub_args and se = 0 and ep = 0
      and s = "stub_state True" and s' = "stub_next True" and eps = "[0]" and ?s0.0 = ?init
      and sN = "stub_last True" and clk = stub_clock and w = stub_world
      and q = "stub_table\<lparr>cells := (cells stub_table)([0, 0] := 19 / 10)\<rparr>"
      and st = "stub_final_stats stub_clock" and w' = "\<lparr>rng = 1, env = 1\<rparr>"]
  from inst [THEN conjunct1, rule_format, OF body] stub_updated_pair [of True]
  have a: "cells (state_action_visits (stats_of (stub_next True))) [0, 0]
        = cells (state_action_visits (stats_of (stub_state True))) [0, 0] + 1"
    by auto
  from inst [THEN conjunct2, THEN conjunct1, rule_format, OF ml] obtain ps where
    uniq: "\<forall>qs sM. main_loop_passes ?X stub_args 0 [0] ?init qs sM \<longrightarrow> qs = ps \<and> sM = stub_last True"
    and cnt: "\<forall>idx. cells (state_action_visits (stats_of (stub_last True))) idx
                  = cells (state_action_visits (stats_of ?init)) idx + real (count_list ps idx)"
    by blast
  from uniq stub_passes [of True] have ps: "ps = [[0, 0]]" by blast
  from cnt ps have b: "cells (state_action_visits (stats_of (stub_last True))) [0, 0]
         = cells (state_action_visits (stats_of ?init)) [0, 0] + real (count_list [[0, 0]] [0, 0 :: nat])"
    by blast
  from inst [THEN conjunct2, THEN conjunct2, rule_format, OF run] obtain q0 sf qs where
    q0: "setup_q_values ?X stub_args (env stub_world) = Inr q0"
    and rel: "main_loop_passes ?X stub_args (case start_episode stub_args of None \<Rightarrow> 0 | Some n \<Rightarrow> n)
               [0..<max_episodes stub_args]
               (initial_state ?X stub_args stub_clock q0
                  (stub_world\<lparr>rng := np_random_seed ?X (seed stub_args)\<rparr>)) qs sf"
    and cnt': "\<forall>idx. cells (state_action_visits (stub_final_stats stub_clock)) idx
                  = real (count_list qs idx)"
    by blast
  from q0 stp have "q0 = stub_table" by simp
  with rel have "main_loop_passes ?X stub_args 0 [0] ?init qs sf"
    by (simp only: se eps w1)
  with uniq ps have "qs = [[0, 0]]" by blast
  with cnt' have c: "cells (state_action_visits (stub_final_stats stub_clock)) [0, 0]
           = real (count_list [[0, 0]] [0, 0 :: nat])"
    and d: "cells (state_action_visits (stub_final_stats stub_clock)) [0, 1]
           = real (count_list [[0, 0]] [0, 1 :: nat])"
    by blast+
  from body stub_updated_pair [of True] a ml stub_passes [of True] b run c d
  show ?thesis by (intro conjI)
qed

text \<open>
  C9. A warm-start table whose shape without its last axis equals \<^verbatim>\<open>buckets\<close> passes
  the validation whatever its last axis is, the run goes on with that very table, and the
  action count of the environment has no influence on the run. In the witness the table
  has two action columns and the environment claims three actions.
\<close>

theorem warm_start_checks_leading_shape_only:
  assumes "q_values_arg A = Some q" and "butlast (shape q) = buckets A"
  shows "setup_q_values X A e = Inr q
     \<and> learn X A clk w = train X A clk q (w\<lparr>rng := np_random_seed X (seed A)\<rparr>)
     \<and> learn (X\<lparr>action_space_n := n\<rparr>) A clk w = learn X A clk w"
proof -
  have s: "setup_q_values X' A e' = Inr q" for X' :: "('a, 'b, 'c, 'd) externals" and e'
    using assms by (simp add: setup_q_values_def)
  then show ?thesis
    by (simp add: learn_def Let_def train_action_space_n)
qed

theorem warm_start_checks_leading_shape_only_witness:
  "q_values_arg stub_args = Some stub_table
   \<and> butlast (shape stub_table) = buckets stub_args
   \<and> last (shape stub_table) \<noteq> action_space_n ((stub_env True)\<lparr>action_space_n := (\<lambda>e. 3)\<rparr>) 0
   \<and> setup_q_values ((stub_env True)\<lparr>action_space_n := (\<lambda>e. 3)\<rparr>) stub_args 0 = Inr stub_table
   \<and> learn ((stub_env True)\<lparr>action_space_n := (\<lambda>e. 3)\<rparr>) stub_args stub_clock stub_world
       = stub_result stub_clock"
proof -
  have a: "q_values_arg stub_args = Some stub_table" by (simp add: stub_args_def)
  have b: "butlast (shape stub_table) = buckets stub_args"
    by (simp add: stub_args_def stub_table_def)
  have c: "last (shape stub_table) \<noteq> action_space_n ((stub_env True)\<lparr>action_space_n := (\<lambda>e. 3)\<rparr>) 0"
    by (simp add: stub_table_def)
  from warm_start_checks_leading_shape_only [where X = "(stub_env True)\<lparr>action_space_n := (\<lambda>e. 3)\<rparr>"
      and e = 0 and clk = stub_clock and w = stub_world, OF a b]
    warm_start_checks_leading_shape_only [where X = "stub_env True" and e = 0 and n = "\<lambda>e. 3"
      and clk = stub_clock and w = stub_world, OF a b]
    a b c
  show ?thesis by (simp add: stub_learn)
qed

text \<open>
  C10. \<^verbatim>\<open>select_action\<close> draws once from the global generator before it decides. When
  it exploits, the world it returns is the given one with the generator advanced by that
  one draw; this is so in particular for epsilon \<open>0\<close> whenever the draw is not
  negative. When it explores, the sampler of the action space runs in the world in which
  the generator has been advanced by that one draw.
\<close>

theorem select_action_draws_once:
  "(let u = fst (np_random_random X (rng w));
        w1 = w\<lparr>rng := snd (np_random_random X (rng w))\<rparr>
    in (\<not> u < eps \<longrightarrow> snd (select_action X q st a eps w) = w1)
     \<and> (0 \<le> u \<longrightarrow> snd (select_action X q st a 0 w) = w1)
     \<and> (u < eps \<longrightarrow> a = EnvObject \<longrightarrow>
          select_action X q st a eps w
            = (Inr (fst (action_space_sample X w1)), snd (action_space_sample X w1)))
     \<and> (u < eps \<longrightarrow> a \<noteq> EnvObject \<longrightarrow> select_action X q st a eps w = (Inl AttributeError, w1)))"
  by (auto simp: select_action_def Let_def split: prod.splits sum.splits py_arg.splits)

theorem select_action_draws_once_witness:
  "(0 \<le> fst (np_random_random (stub_env True) (rng stub_world))
    \<and> \<not> fst (np_random_random (stub_env True) (rng stub_world)) < 0
    \<and> select_action (stub_env True) stub_table [0] EnvObject 0 stub_world
        = (Inr 0, \<lparr>rng = 8, env = 0\<rparr>))
   \<and> (fst (np_random_random (stub_env True) (rng stub_world)) < 1
    \<and> select_action (stub_env True) stub_table [0] EnvObject 1 stub_world
        = (Inr 1, \<lparr>rng = 8, env = 0\<rparr>)
    \<and> select_action (stub_env True) stub_table [0] (PyFloat 1) 1 stub_world
        = (Inl AttributeError, \<lparr>rng = 8, env = 0\<rparr>))"
  using select_action_draws_once [of "stub_env True" stub_world 0 stub_table "[0]" EnvObject]
    select_action_draws_once [of "stub_env True" stub_world 1 stub_table "[0]" EnvObject]
    select_action_draws_once [of "stub_env True" stub_world 1 stub_table "[0]" "PyFloat 1"]
    select_stub [of True EnvObject 7 0]
  by (simp add: Let_def stub_draw stub_sample stub_world_def)

end
